theory Spec2Isabelle
  imports Main "HOL-Library.Word"
begin

unbundle bit_operations_syntax

section \<open>Transport layer configuration (namespace Comm)\<close>

text \<open>
  The build modelled is the one the source selects: \<open>COMM_TX\<close>, \<open>COMM_RX\<close>,
  \<open>COMM_CRC\<close>, \<open>COMM_CTR\<close> and both statistics switches are 1.  The two
  retry switches are tested by ordinary \<open>if\<close> statements in the interrupt
  handler; they are kept as a configuration record so that both branches can
  be examined.  The source sets both to 1.
\<close>

type_synonym len_t = "8 word"
type_synonym crc_t = "16 word"
type_synonym ctr_t = "8 word"

record comm_cfg =
  COMM_TXRETRY :: bool
  COMM_RXRETRY :: bool

definition source_cfg :: comm_cfg where
  "source_cfg = \<lparr>COMM_TXRETRY = True, COMM_RXRETRY = True\<rparr>"

definition CRCInit :: crc_t where
  "CRCInit = 0xFFFF"

definition MaxMesgSize :: nat where
  "MaxMesgSize = 256"

definition COMM_HEADSIZE :: nat where
  "COMM_HEADSIZE = 1 + 1"

definition COMM_TAILSIZE :: nat where
  "COMM_TAILSIZE = 2"

definition COMM_PACKETSIZE :: nat where
  "COMM_PACKETSIZE = COMM_HEADSIZE + COMM_TAILSIZE"

definition SynchSize :: nat where
  "SynchSize = 4"

definition SynchData :: "8 word list" where
  "SynchData = [0xAA, 0xAA, 0x2D, 0xD4]"

text \<open>
  \<open>packet_t\<close> is the length byte, the control byte and
  \<open>Mesg[MaxMesgSize + COMM_TAILSIZE]\<close>; \<open>frame_t\<close> is the union of
  \<open>Raw[SynchSize + sizeof(packet_t)]\<close> with the synchronisation bytes
  followed by the packet.
\<close>

definition sizeof_packet_t :: nat where
  "sizeof_packet_t = COMM_HEADSIZE + (MaxMesgSize + COMM_TAILSIZE)"

definition sizeof_frame_t :: nat where
  "sizeof_frame_t = SynchSize + sizeof_packet_t"

subsection \<open>The CRC step of avr-libc\<close>

definition lo8 :: "crc_t \<Rightarrow> 8 word" where
  "lo8 c = ucast c"

definition hi8 :: "crc_t \<Rightarrow> 8 word" where
  "hi8 c = ucast (drop_bit 8 c)"

text \<open>
  Modelled from the spec: \<open>_crc_ccitt_update\<close> is called by the source but
  belongs to avr-libc (\<open>util/crc16.h\<close>), which is not part of the
  repository.  The spec names it the CRC-16/CCITT byte update; the definition
  below is the byte-at-a-time form of that update (polynomial
  \<open>x^16 + x^12 + x^5 + 1\<close>, least significant bit first) as avr-libc
  documents its C equivalent: \<open>data ^= lo8(crc); data ^= data << 4;
  return (((uint16_t)data << 8) | hi8(crc)) ^ (uint8_t)(data >> 4)
  ^ ((uint16_t)data << 3)\<close>.
\<close>

definition crc_ccitt_update :: "crc_t \<Rightarrow> 8 word \<Rightarrow> crc_t" where
  "crc_ccitt_update crc data =
     (let d1 = data XOR lo8 crc;
          d2 = d1 XOR push_bit 4 d1
      in (push_bit 8 (ucast d2) OR ucast (hi8 crc))
           XOR ucast (drop_bit 4 d2) XOR push_bit 3 (ucast d2))"

text \<open>
  The same update one bit at a time, as the CRC-16/CCITT recurrence is usually
  written (reflected polynomial \<open>0x8408\<close>): the data byte is folded into the
  low byte of the accumulator, which is then shifted right eight times, the
  polynomial being added whenever a one is shifted out.  It is the reference
  the byte-at-a-time form above is compared with.
\<close>

definition crc16_shift :: "crc_t \<Rightarrow> crc_t" where
  "crc16_shift c = (if bit c 0 then drop_bit 1 c XOR 0x8408 else drop_bit 1 c)"

definition crc16_ccitt_bitwise :: "crc_t \<Rightarrow> 8 word \<Rightarrow> crc_t" where
  "crc16_ccitt_bitwise c b = (crc16_shift ^^ 8) (c XOR ucast b)"

text \<open>The byte-at-a-time form as a function of the accumulator with the data
  byte already folded in.\<close>

definition crc_bytewise :: "crc_t \<Rightarrow> crc_t" where
  "crc_bytewise x =
     (let d2 = lo8 x XOR push_bit 4 (lo8 x)
      in (push_bit 8 (ucast d2) XOR ucast (hi8 x))
           XOR ucast (drop_bit 4 d2) XOR push_bit 3 (ucast d2))"

text \<open>The accumulator after a run of bytes, first byte first.\<close>

definition crc_bytes :: "8 word list \<Rightarrow> crc_t \<Rightarrow> crc_t" where
  "crc_bytes bs c = fold (\<lambda>b acc. crc_ccitt_update acc b) bs c"

subsection \<open>Packet fields seen through the raw bytes\<close>

text \<open>
  The interrupt handler stores through \<open>(uint8_t *)&State.RecvBuff\<close> and
  \<open>TXInit\<close> walks \<open>State.SendBuff.Raw\<close>, so both buffers are kept as
  their bytes.  Offset 0 of a packet is \<open>Length\<close>, offset 1 is
  \<open>Type.Raw\<close>, \<open>Mesg\<close> starts at offset \<open>COMM_HEADSIZE\<close>.  avr-gcc
  allocates bit-fields from the least significant bit, so \<open>Type.C.Control\<close>
  is the low nibble of \<open>Type.Raw\<close> and \<open>Type.C.Config\<close> the high one.
\<close>

definition Control :: "ctr_t \<Rightarrow> 8 word" where
  "Control raw = raw AND 0x0F"

definition Config :: "ctr_t \<Rightarrow> 8 word" where
  "Config raw = drop_bit 4 raw"

definition set_Control :: "8 word \<Rightarrow> ctr_t \<Rightarrow> ctr_t" where
  "set_Control v raw = (raw AND 0xF0) OR (v AND 0x0F)"

definition set_Config :: "8 word \<Rightarrow> ctr_t \<Rightarrow> ctr_t" where
  "set_Config v raw = (raw AND 0x0F) OR push_bit 4 (v AND 0x0F)"

definition pk_Length :: "8 word list \<Rightarrow> len_t" where
  "pk_Length p = p ! 0"

definition pk_Type :: "8 word list \<Rightarrow> ctr_t" where
  "pk_Type p = p ! 1"

definition pk_Mesg :: "8 word list \<Rightarrow> 8 word list" where
  "pk_Mesg p = drop COMM_HEADSIZE p"

section \<open>Shared state and the transceiver driver (namespace RF)\<close>

datatype Mode = MI | Mr | MR | MX | Mt | MT

datatype RF_Mode = TX | RX | DEF | ECO

text \<open>
  A byte handed to \<open>RF::Transmit\<close>.  The send cursor can be dereferenced at
  an offset that lies behind \<open>SendBuff.Raw\<close>; the value read there is not
  determined by the buffer, so the log records the offset instead.
\<close>

datatype tx_data = InBuff "8 word" | PastBuff nat

text \<open>
  The 16-bit commands sent through \<open>RF::VSendCommand\<close>: the four power
  management words (\<open>0x8239\<close>, \<open>0x82D9\<close>, \<open>0x8259\<close>, \<open>0x8201\<close>),
  the two FIFO words (\<open>0xCA81\<close>, \<open>0xCA83\<close>), the status read
  \<open>0x0000\<close>, the transmitter register write \<open>0xB800 | byte\<close>, and the
  other configuration words, which only \<open>RF::Init\<close> sends.
\<close>

datatype rf_cmd =
    RF12_PM_TX | RF12_PM_RX | RF12_PM_DEF | RF12_PM_ECO
  | RF12_FIFO_OFF | RF12_FIFO_ON
  | RF12_STATUS
  | RF12_TXWR_CMD tx_data
  | RF12_SETUP "16 word"

record comm_state =
  SendBuff :: "8 word list"
  SendCur :: "nat option"
  SendEnd :: "nat option"
  RecvBuff :: "8 word list"
  RecvCur :: "nat option"
  RecvEnd :: "nat option"
  Mode :: Mode
  Status :: "16 word"
  PacketsTX :: "32 word"
  PacketsRX :: "32 word"
  CtrErr :: "16 word"
  CRCErr :: "16 word"
  CRC :: crc_t
  CurMode :: RF_Mode
  IRQ_enabled :: bool
  SPI_log :: "rf_cmd list"

text \<open>
  Cursors are offsets from the start of their buffer (\<open>SendBuff.Raw\<close>,
  \<open>&RecvBuff\<close>); \<open>None\<close> is \<open>NULL\<close>.  \<open>IRQ_enabled\<close> is the
  \<open>EIMSK\<close> bit that \<open>RF_IRQ_ON\<close> and \<open>RF_IRQ_OFF\<close> set and clear;
  \<open>SPI_log\<close> is every command written to the transceiver, oldest first.

  The static initialiser \<open>State = {{SynchData}}\<close> zeroes everything after
  the synchronisation bytes; the zero of \<open>enum RF_Mode\<close> is \<open>TX\<close>.
\<close>

definition State0 :: comm_state where
  "State0 = \<lparr>SendBuff = SynchData @ replicate sizeof_packet_t 0,
             SendCur = None, SendEnd = None,
             RecvBuff = replicate sizeof_packet_t 0,
             RecvCur = None, RecvEnd = None,
             Mode = MI, Status = 0,
             PacketsTX = 0, PacketsRX = 0, CtrErr = 0, CRCErr = 0, CRC = 0,
             CurMode = TX, IRQ_enabled = False, SPI_log = []\<rparr>"

definition RF_IRQ_ON :: "comm_state \<Rightarrow> comm_state" where
  "RF_IRQ_ON s = s\<lparr>IRQ_enabled := True\<rparr>"

definition RF_IRQ_OFF :: "comm_state \<Rightarrow> comm_state" where
  "RF_IRQ_OFF s = s\<lparr>IRQ_enabled := False\<rparr>"

definition VSendCommand :: "rf_cmd \<Rightarrow> comm_state \<Rightarrow> comm_state" where
  "VSendCommand cmd s = s\<lparr>SPI_log := SPI_log s @ [cmd]\<rparr>"

definition RF_Mode :: "RF_Mode \<Rightarrow> comm_state \<Rightarrow> comm_state" where
  "RF_Mode m s =
     (let s1 = s\<lparr>CurMode := m\<rparr>
      in case m of
           TX \<Rightarrow> VSendCommand RF12_PM_TX s1
         | RX \<Rightarrow> VSendCommand RF12_FIFO_ON
                   (VSendCommand RF12_FIFO_OFF (VSendCommand RF12_PM_RX s1))
         | DEF \<Rightarrow> VSendCommand RF12_PM_DEF s1
         | ECO \<Rightarrow> VSendCommand RF12_PM_ECO s1)"

definition Transmit :: "tx_data \<Rightarrow> comm_state \<Rightarrow> comm_state" where
  "Transmit b s = VSendCommand (RF12_TXWR_CMD b) s"

definition FIFOReset :: "comm_state \<Rightarrow> comm_state" where
  "FIFOReset s = VSendCommand RF12_FIFO_ON (VSendCommand RF12_FIFO_OFF s)"

text \<open>
  The table \<open>Config[]\<close> of \<open>RF::Init\<close>, in order: \<open>RF12_CONFIG\<close>,
  \<open>RF12_PM_DEF\<close>, \<open>RF12_FQ\<close>, \<open>RF12_DR\<close>, \<open>RF12_RXCTL\<close>,
  \<open>RF12_FILTER\<close>, \<open>RF12_FIFO_OFF\<close>, \<open>RF12_AFC\<close>, \<open>RF12_TXCTL\<close>,
  \<open>RF12_WAKE\<close>, \<open>RF12_DUTY\<close>, \<open>RF12_BATT\<close>, with the macros of
  \<open>RF_CFG.h\<close> evaluated.
\<close>

definition RF_Init_Config :: "rf_cmd list" where
  "RF_Init_Config =
     [RF12_SETUP 0x80D7, RF12_PM_DEF, RF12_SETUP 0xA190, RF12_SETUP 0xC605,
      RF12_SETUP 0x97A0, RF12_SETUP 0xC2AC, RF12_FIFO_OFF, RF12_SETUP 0xC483,
      RF12_SETUP 0x9850, RF12_SETUP 0xE000, RF12_SETUP 0xC800, RF12_SETUP 0xC0E0]"

definition RF_Init :: "comm_state \<Rightarrow> comm_state" where
  "RF_Init s = VSendCommand RF12_STATUS (fold VSendCommand RF_Init_Config s)"

text \<open>\<open>*p\<close> for a pointer \<open>p = SendBuff.Raw + i\<close>.\<close>

definition Raw_at :: "comm_state \<Rightarrow> nat \<Rightarrow> tx_data" where
  "Raw_at s i = (if i < sizeof_frame_t then InBuff (SendBuff s ! i) else PastBuff i)"

section \<open>General functions\<close>

definition Idle :: "comm_state \<Rightarrow> comm_state" where
  "Idle s = (RF_Mode ECO (RF_IRQ_OFF s))\<lparr>Mode := MI\<rparr>"

definition Init :: "comm_state \<Rightarrow> comm_state" where
  "Init s = Idle (RF_Init s)"

section \<open>RX functions\<close>

definition RXInit :: "comm_state \<Rightarrow> comm_state" where
  "RXInit s =
     (let s1 = RF_IRQ_OFF s;
          s2 = (if CurMode s1 \<noteq> RX then RF_Mode RX s1 else s1);
          s3 = VSendCommand RF12_STATUS s2;
          s4 = s3\<lparr>Mode := Mr, CRC := CRCInit,
                  RecvCur := Some 0, RecvEnd := Some (0 + COMM_HEADSIZE - 1)\<rparr>
      in RF_IRQ_ON s4)"

definition RXReady :: "comm_state \<Rightarrow> bool" where
  "RXReady s = (Mode s = MX \<or> Mode s = MI)"

text \<open>
  A returned \<open>char *\<close> into a buffer is modelled by the bytes it points at;
  \<open>NULL\<close> is \<open>None\<close>.  \<open>RXGetPacket\<close> returns the state as well, so that
  what the call leaves behind can be compared with what it found.
\<close>

definition RXGetBuff :: "comm_state \<Rightarrow> 8 word list" where
  "RXGetBuff s = pk_Mesg (RecvBuff s)"

definition RXGetPacket :: "comm_state \<Rightarrow> (8 word list option \<times> len_t) \<times> comm_state" where
  "RXGetPacket s =
     (if Mode s \<noteq> MX then ((None, 0), s)
      else ((Some (pk_Mesg (RecvBuff s)), pk_Length (RecvBuff s)), s))"

definition RXGetConfig :: "comm_state \<Rightarrow> 8 word" where
  "RXGetConfig s = Config (pk_Type (RecvBuff s))"

section \<open>TX functions\<close>

definition TXReady :: "comm_state \<Rightarrow> bool" where
  "TXReady s = (Mode s = Mt)"

definition TXGetBuff :: "comm_state \<Rightarrow> 8 word list" where
  "TXGetBuff s = pk_Mesg (drop SynchSize (SendBuff s))"

text \<open>
  Foreground code fills the payload through the pointer \<open>TXGetBuff\<close>
  returns (\<open>strncpy(Buff, ..., Length)\<close> in \<open>Testcase_TX\<close>) before it
  calls \<open>TXInit\<close>.
\<close>

definition TXPut :: "8 word list \<Rightarrow> comm_state \<Rightarrow> comm_state" where
  "TXPut payload s =
     s\<lparr>SendBuff := take (SynchSize + COMM_HEADSIZE) (SendBuff s) @ payload
                    @ drop (SynchSize + COMM_HEADSIZE + length payload) (SendBuff s)\<rparr>"

definition TXConfig :: "8 word \<Rightarrow> comm_state \<Rightarrow> comm_state" where
  "TXConfig Cfg s =
     s\<lparr>SendBuff := (SendBuff s)[SynchSize + 1 :=
                       set_Config Cfg (SendBuff s ! (SynchSize + 1))]\<rparr>"

text \<open>
  The \<open>do ... while (--i)\<close> loop of \<open>TXInit\<close>: \<open>i\<close> starts at
  \<open>Length + COMM_HEADSIZE\<close>, which lies between 2 and 257, so the body runs
  exactly \<open>i\<close> times.  The first argument is the number of rounds left, the
  second the offset of \<open>Byte\<close> in \<open>SendBuff.Raw\<close>.
\<close>

fun TXInit_crc_loop :: "nat \<Rightarrow> nat \<Rightarrow> comm_state \<Rightarrow> nat \<times> comm_state" where
  "TXInit_crc_loop 0 byte s = (byte, s)"
| "TXInit_crc_loop (Suc i) byte s =
     TXInit_crc_loop i (byte + 1)
       (s\<lparr>CRC := crc_ccitt_update (CRC s) (SendBuff s ! byte)\<rparr>)"

text \<open>The part of \<open>TXInit\<close> up to \<open>RF_IRQ_ON()\<close>.\<close>

definition TXInit_start :: "len_t \<Rightarrow> comm_state \<Rightarrow> comm_state" where
  "TXInit_start Length s =
     (let s1 = RF_IRQ_OFF s;
          s2 = (if CurMode s1 \<noteq> TX then RF_Mode TX s1 else s1);
          s3 = s2\<lparr>SendBuff := (SendBuff s2)[SynchSize := Length]\<rparr>;
          s4 = s3\<lparr>SendBuff := (SendBuff s3)[SynchSize + 1 :=
                                  set_Control (NOT Length) (SendBuff s3 ! (SynchSize + 1))]\<rparr>;
          s5 = s4\<lparr>SendCur := Some 1\<rparr>;
          s6 = s5\<lparr>SendEnd := Some (1 + SynchSize + unat Length + COMM_PACKETSIZE + 1)\<rparr>;
          s7 = s6\<lparr>Mode := MT\<rparr>;
          s8 = Transmit (Raw_at s7 0) s7;
          s9 = VSendCommand RF12_STATUS s8
      in RF_IRQ_ON s9)"

text \<open>The \<open>COMM_CRC\<close> block that ends \<open>TXInit\<close>.\<close>

definition TXInit_crc :: "len_t \<Rightarrow> comm_state \<Rightarrow> comm_state" where
  "TXInit_crc Length s =
     (let s1 = s\<lparr>CRC := CRCInit\<rparr>;
          (byte, s2) = TXInit_crc_loop (unat Length + COMM_HEADSIZE) SynchSize s1;
          s3 = s2\<lparr>SendBuff := (SendBuff s2)[byte := ucast (CRC s2 AND 0x00FF)]\<rparr>
      in s3\<lparr>SendBuff := (SendBuff s3)[byte + 1 := ucast (drop_bit 8 (CRC s3))]\<rparr>)"

definition TXInit :: "len_t \<Rightarrow> comm_state \<Rightarrow> comm_state" where
  "TXInit Length s = TXInit_crc Length (TXInit_start Length s)"

definition TXPreInit :: "comm_state \<Rightarrow> comm_state" where
  "TXPreInit s = RF_Mode TX (RF_IRQ_OFF (s\<lparr>Mode := MI\<rparr>))"

section \<open>The interrupt handler\<close>

text \<open>
  One invocation reads three bytes from the SPI data register: the two status
  bytes and, on the receive path only, the FIFO byte.
\<close>

record spi_in =
  status_hi :: "8 word"
  status_lo :: "8 word"
  fifo :: "8 word"

definition RF12_S_RGUR :: "16 word \<Rightarrow> bool" where
  "RF12_S_RGUR sw = (sw AND push_bit 13 1 \<noteq> 0)"

datatype fault = NullPointer | OutsideRecvBuff

text \<open>The code behind the label \<open>ResetRX\<close>.\<close>

definition ResetRX :: "comm_cfg \<Rightarrow> comm_state \<Rightarrow> comm_state" where
  "ResetRX cfg s =
     (if COMM_RXRETRY cfg then
        (FIFOReset s)\<lparr>Mode := Mr, CRC := CRCInit,
                      RecvCur := Some 0, RecvEnd := Some (0 + COMM_HEADSIZE - 1)\<rparr>
      else
        RF_IRQ_OFF ((RF_Mode DEF (s\<lparr>Mode := MI\<rparr>))\<lparr>RecvCur := None, RecvEnd := None\<rparr>))"

text \<open>The branch taken when the first status byte has RGUR/FFOV set.\<close>

definition ISR_error :: "comm_cfg \<Rightarrow> spi_in \<Rightarrow> comm_state \<Rightarrow> comm_state" where
  "ISR_error cfg inp s =
     (let s1 = s\<lparr>Status := Status s OR ucast (status_lo inp)\<rparr>
      in if Mode s1 = MT then
           (let s2 = s1\<lparr>CtrErr := CtrErr s1 + 1\<rparr>
            in if COMM_TXRETRY cfg then
                 Transmit (Raw_at s2 0) (s2\<lparr>SendCur := Some 1\<rparr>)
               else
                 RF_IRQ_OFF (RF_Mode DEF (s2\<lparr>SendCur := None, SendEnd := None, Mode := MI\<rparr>)))
         else ResetRX cfg (s1\<lparr>CtrErr := CtrErr s1 + 1\<rparr>))"

text \<open>The transmit branch.\<close>

definition ISR_TX :: "spi_in \<Rightarrow> comm_state \<Rightarrow> fault + comm_state" where
  "ISR_TX inp s =
     (let s1 = s\<lparr>Status := Status s OR ucast (status_lo inp)\<rparr>
      in if SendCur s1 = SendEnd s1 then
           Inr (RF_IRQ_OFF (s1\<lparr>Mode := Mt, PacketsTX := PacketsTX s1 + 1\<rparr>))
         else
           (case SendCur s1 of
              None \<Rightarrow> Inl NullPointer
            | Some i \<Rightarrow> Inr ((Transmit (Raw_at s1 i) s1)\<lparr>SendCur := Some (i + 1)\<rparr>)))"

text \<open>
  The receive branch.  A store through \<open>RecvCur\<close> that is \<open>NULL\<close> or
  lies outside \<open>RecvBuff\<close> is a fault of the model.
\<close>

definition ISR_RX :: "comm_cfg \<Rightarrow> spi_in \<Rightarrow> comm_state \<Rightarrow> fault + comm_state" where
  "ISR_RX cfg inp s =
     (let s1 = s\<lparr>Status := Status s OR ucast (status_lo inp)\<rparr>
      in case RecvCur s1 of
           None \<Rightarrow> Inl NullPointer
         | Some i \<Rightarrow>
             if \<not> i < sizeof_packet_t then Inl OutsideRecvBuff
             else
               (let s2 = s1\<lparr>RecvBuff := (RecvBuff s1)[i := fifo inp]\<rparr>;
                    s3 = s2\<lparr>CRC := crc_ccitt_update (CRC s2) (fifo inp)\<rparr>
                in if RecvCur s3 = RecvEnd s3 then
                     if Mode s3 = Mr then
                       if Control (pk_Type (RecvBuff s3))
                            \<noteq> (NOT (pk_Length (RecvBuff s3))) AND 0x0F
                       then Inr (ResetRX cfg (s3\<lparr>CtrErr := CtrErr s3 + 1\<rparr>))
                       else if pk_Length (RecvBuff s3) = 0
                       then Inr (ResetRX cfg (s3\<lparr>CtrErr := CtrErr s3 + 1\<rparr>))
                       else
                         Inr (s3\<lparr>RecvEnd := Some (i + unat (pk_Length (RecvBuff s3))
                                                     + COMM_TAILSIZE),
                                 Mode := MR,
                                 RecvCur := Some (i + 1)\<rparr>)
                     else if CRC s3 = 0x0000 then
                       Inr ((RF_IRQ_OFF (RF_Mode DEF s3))
                              \<lparr>PacketsRX := PacketsRX s3 + 1, Mode := MX\<rparr>)
                     else Inr (ResetRX cfg (s3\<lparr>CRCErr := CRCErr s3 + 1\<rparr>))
                   else Inr (s3\<lparr>RecvCur := Some (i + 1)\<rparr>)))"

definition ISR :: "comm_cfg \<Rightarrow> spi_in \<Rightarrow> comm_state \<Rightarrow> fault + comm_state" where
  "ISR cfg inp s =
     (let s1 = s\<lparr>Status := push_bit 8 (ucast (status_hi inp))\<rparr>
      in if RF12_S_RGUR (Status s1) then Inr (ISR_error cfg inp s1)
         else if Mode s1 = MT then ISR_TX inp s1
         else ISR_RX cfg inp s1)"

text \<open>A run of interrupts, stopping at the first fault.\<close>

fun ISR_run :: "comm_cfg \<Rightarrow> spi_in list \<Rightarrow> comm_state \<Rightarrow> fault + comm_state" where
  "ISR_run cfg [] s = Inr s"
| "ISR_run cfg (inp # inps) s =
     (case ISR cfg inp s of Inl e \<Rightarrow> Inl e | Inr s' \<Rightarrow> ISR_run cfg inps s')"

text \<open>
  Status bytes of an interrupt that signals RGIT/FFIT only, and of one that
  signals RGUR/FFOV as well.
\<close>

definition irq_ok :: "8 word \<Rightarrow> spi_in" where
  "irq_ok b = \<lparr>status_hi = 0x80, status_lo = 0x00, fifo = b\<rparr>"

definition irq_rgur :: spi_in where
  "irq_rgur = \<lparr>status_hi = 0xA0, status_lo = 0x00, fifo = 0x00\<rparr>"

text \<open>
  The frame \<open>TXInit\<close> has built in \<open>SendBuff\<close>, and what the receiving
  transceiver puts into its FIFO for it: filling starts behind the
  synchronisation pattern.
\<close>

definition TXFrame :: "comm_state \<Rightarrow> 8 word list" where
  "TXFrame s =
     take (SynchSize + COMM_HEADSIZE + unat (SendBuff s ! SynchSize) + COMM_TAILSIZE)
       (SendBuff s)"

definition fifo_bytes :: "8 word list \<Rightarrow> 8 word list" where
  "fifo_bytes frame = drop SynchSize frame"

definition RX_run :: "comm_cfg \<Rightarrow> 8 word list \<Rightarrow> comm_state \<Rightarrow> fault + comm_state" where
  "RX_run cfg bs s = ISR_run cfg (map irq_ok bs) s"

text \<open>The bytes written to the transmitter register, in order.\<close>

fun tx_bytes :: "rf_cmd list \<Rightarrow> tx_data list" where
  "tx_bytes [] = []"
| "tx_bytes (RF12_TXWR_CMD b # cs) = b # tx_bytes cs"
| "tx_bytes (c # cs) = tx_bytes cs"

text \<open>Both buffers have the size of their C type and the synchronisation bytes are in place.\<close>

definition wf_state :: "comm_state \<Rightarrow> bool" where
  "wf_state s =
     (length (SendBuff s) = sizeof_frame_t \<and> take SynchSize (SendBuff s) = SynchData
      \<and> length (RecvBuff s) = sizeof_packet_t)"

section \<open>Notions used in the statements\<close>

text \<open>
  The control byte, the bytes covered by the CRC and the CRC that
  \<open>TXInit Length\<close> produces from the buffer it finds.
\<close>

definition tx_ctl :: "len_t \<Rightarrow> comm_state \<Rightarrow> 8 word" where
  "tx_ctl L s = set_Control (NOT L) (SendBuff s ! 5)"

definition tx_body :: "len_t \<Rightarrow> comm_state \<Rightarrow> 8 word list" where
  "tx_body L s = L # tx_ctl L s # take (unat L) (drop 6 (SendBuff s))"

definition tx_crc :: "len_t \<Rightarrow> comm_state \<Rightarrow> crc_t" where
  "tx_crc L s = crc_bytes (tx_body L s) CRCInit"

text \<open>
  The receiver started by \<open>RXInit\<close> just after it has stored the last
  byte of the packet bytes \<open>pkt\<close>, before the CRC decision.
\<close>

definition rx_last :: "8 word list \<Rightarrow> comm_state \<Rightarrow> comm_state" where
  "rx_last pkt s = (RXInit s)\<lparr>Status := 0x8000,
       RecvBuff := pkt @ drop (length pkt) (RecvBuff s),
       CRC := crc_bytes pkt CRCInit,
       RecvCur := Some (length pkt - 1), RecvEnd := Some (length pkt - 1), Mode := MR\<rparr>"

section \<open>Reachable states\<close>

text \<open>
  The states the link can be in: the static initial state, and whatever the
  foreground entry points and the interrupt handler make of a reachable state.
  A foreground call is taken as one step (each entry point that touches the
  cursors disables the interrupt first).  The handler runs only while
  \<open>RF_IRQ_ON\<close> has the interrupt enabled, with arbitrary bytes read from
  the SPI data register, and only its fault-free results are states.
\<close>

inductive reachable :: "comm_cfg \<Rightarrow> comm_state \<Rightarrow> bool" for cfg :: comm_cfg where
  start: "reachable cfg State0"
| init: "reachable cfg s \<Longrightarrow> reachable cfg (Init s)"
| idle: "reachable cfg s \<Longrightarrow> reachable cfg (Idle s)"
| rxinit: "reachable cfg s \<Longrightarrow> reachable cfg (RXInit s)"
| txput: "reachable cfg s \<Longrightarrow> length payload \<le> MaxMesgSize \<Longrightarrow> reachable cfg (TXPut payload s)"
| txconfig: "reachable cfg s \<Longrightarrow> reachable cfg (TXConfig Cfg s)"
| txinit: "reachable cfg s \<Longrightarrow> reachable cfg (TXInit Length s)"
| txpreinit: "reachable cfg s \<Longrightarrow> reachable cfg (TXPreInit s)"
| irq: "reachable cfg s \<Longrightarrow> IRQ_enabled s \<Longrightarrow> ISR cfg inp s = Inr s' \<Longrightarrow> reachable cfg s'"

text \<open>The invariant behind the bounds of the cursors.\<close>

definition cursors_ok :: "comm_state \<Rightarrow> bool" where
  "cursors_ok s =
     (wf_state s
      \<and> (IRQ_enabled s \<longrightarrow> Mode s = Mr \<or> Mode s = MR \<or> Mode s = MT)
      \<and> (Mode s = Mr \<longrightarrow>
            RecvEnd s = Some 1 \<and> (RecvCur s = Some 0 \<or> RecvCur s = Some 1))
      \<and> (Mode s = MR \<longrightarrow>
            (\<exists>c e. RecvCur s = Some c \<and> RecvEnd s = Some e \<and> c \<le> e \<and> e \<le> 258))
      \<and> (Mode s = MT \<longrightarrow> SendCur s \<noteq> None \<and> CurMode s = TX))"

section \<open>Unfolding rules\<close>

lemmas size_defs =
  MaxMesgSize_def COMM_HEADSIZE_def COMM_TAILSIZE_def COMM_PACKETSIZE_def
  SynchSize_def sizeof_packet_t_def sizeof_frame_t_def
lemmas hw_defs = RF_IRQ_ON_def RF_IRQ_OFF_def VSendCommand_def RF_Mode_def Transmit_def FIFOReset_def

section \<open>Nibbles of the control byte\<close>

lemma low_nibble_mask: "(0x0F :: 8 word) = mask 4" by (simp add: mask_eq_exp_minus_1)
lemma high_nibble_mask: "(0xF0 :: 8 word) = NOT (mask 4)" by (simp add: mask_eq_exp_minus_1)

lemma Control_set_Control: "Control (set_Control v r) = v AND 0x0F"
  unfolding Control_def set_Control_def low_nibble_mask high_nibble_mask
  by (rule bit_word_eqI) (auto simp: bit_simps)
lemma Config_set_Control: "Config (set_Control v r) = Config r"
  unfolding Config_def set_Control_def low_nibble_mask high_nibble_mask
  by (rule bit_word_eqI) (auto simp: bit_simps dest: bit_imp_le_length)
lemma Config_set_Config: "Config (set_Config v r) = v AND 0x0F"
  unfolding Config_def set_Config_def low_nibble_mask high_nibble_mask
  by (rule bit_word_eqI) (auto simp: bit_simps dest: bit_imp_le_length)
lemma Control_set_Config: "Control (set_Config v r) = Control r"
  unfolding Control_def set_Config_def low_nibble_mask high_nibble_mask
  by (rule bit_word_eqI) (auto simp: bit_simps)

section \<open>The CRC step: zero residue, and only for the right trailer\<close>

lemma xor_zero_eq: "a XOR b = 0 \<Longrightarrow> a = (b :: 8 word)"
  by (metis xor.assoc xor_self_eq xor.left_neutral xor.right_neutral)
lemma xor_drop5_zero: "d XOR drop_bit 5 d = 0 \<Longrightarrow> d = (0 :: 8 word)"
proof -
  assume "d XOR drop_bit 5 d = 0"
  then have e: "d = drop_bit 5 d" by (rule xor_zero_eq)
  have "drop_bit 5 (drop_bit 5 d) = 0" by simp
  with e show ?thesis by metis
qed
lemma xor_push4_zero: "d XOR push_bit 4 d = 0 \<Longrightarrow> d = (0 :: 8 word)"
proof -
  assume "d XOR push_bit 4 d = 0"
  then have e: "d = push_bit 4 d" by (rule xor_zero_eq)
  have "push_bit 4 (push_bit 4 d) = 0" by simp
  with e show ?thesis by metis
qed
lemma lo8_ucast: "lo8 (ucast (h :: 8 word)) = h" unfolding lo8_def by (rule bit_word_eqI) (simp add: bit_simps)
lemma hi8_ucast: "hi8 (ucast (h :: 8 word)) = 0" unfolding hi8_def by (rule bit_word_eqI) (auto simp add: bit_simps dest: bit_imp_le_length) 
lemma hi8_core: "hi8 ((push_bit 8 (ucast d) OR ucast h) XOR ucast (drop_bit 4 d) XOR push_bit 3 (ucast d)) = d XOR drop_bit 5 d" for d h :: "8 word"
  unfolding hi8_def
  by (rule bit_word_eqI) (auto simp: bit_simps dest: bit_imp_le_length)
lemma crc_lo: "crc_ccitt_update c (lo8 c) = ucast (hi8 c)"
  by (simp add: crc_ccitt_update_def Let_def)
lemma crc_hi: "crc_ccitt_update (ucast (hi8 c)) (hi8 c) = 0"
  using crc_lo[of "ucast (hi8 c)"] by (simp add: lo8_ucast hi8_ucast)
lemma crc_residue_zero: "crc_bytes [lo8 c, hi8 c] c = 0"
  by (simp add: crc_bytes_def crc_lo crc_hi)
lemma hi8_update_zero: "hi8 (crc_ccitt_update c b) = 0 \<Longrightarrow> b = lo8 c"
proof -
  assume a: "hi8 (crc_ccitt_update c b) = 0"
  define d1 where "d1 = b XOR lo8 c"
  define d2 where "d2 = d1 XOR push_bit 4 d1"
  have "crc_ccitt_update c b = (push_bit 8 (ucast d2) OR ucast (hi8 c)) XOR ucast (drop_bit 4 d2) XOR push_bit 3 (ucast d2)"
    by (simp add: crc_ccitt_update_def Let_def d1_def d2_def)
  with a have "d2 XOR drop_bit 5 d2 = 0" by (simp add: hi8_core)
  then have "d2 = 0" by (rule xor_drop5_zero)
  then have "d1 = 0" unfolding d2_def by (rule xor_push4_zero)
  then show ?thesis unfolding d1_def by (rule xor_zero_eq)
qed
lemma crc_update_zero: "crc_ccitt_update x d = 0 \<Longrightarrow> hi8 x = 0"
proof -
  assume a: "crc_ccitt_update x d = 0"
  then have "hi8 (crc_ccitt_update x d) = 0" by (simp add: hi8_def)
  then have "d = lo8 x" by (rule hi8_update_zero)
  with a have "(ucast (hi8 x) :: 16 word) = 0" by (simp add: crc_lo)
  then have "lo8 (ucast (hi8 x)) = lo8 0" by simp
  moreover have "lo8 0 = 0" by (simp add: lo8_def)
  ultimately show ?thesis by (simp only: lo8_ucast)
qed
lemma crc_residue_nonzero: "b \<noteq> lo8 c \<Longrightarrow> crc_bytes [b, hi8 c] c \<noteq> 0"
proof
  assume n: "b \<noteq> lo8 c" and z: "crc_bytes [b, hi8 c] c = 0"
  from z have "crc_ccitt_update (crc_ccitt_update c b) (hi8 c) = 0" by (simp add: crc_bytes_def)
  then have "hi8 (crc_ccitt_update c b) = 0" by (rule crc_update_zero)
  then have "b = lo8 c" by (rule hi8_update_zero)
  with n show False by simp
qed
lemma ucast_and_ff: "ucast (c AND 0x00FF) = lo8 (c :: 16 word)"
proof -
  have m: "(0xFF :: 16 word) = mask 8" by (simp add: mask_eq_exp_minus_1)
  show ?thesis unfolding lo8_def m by (rule bit_word_eqI) (auto simp: bit_simps)
qed

section \<open>The CRC step is the bit-serial CRC-16/CCITT update\<close>

text \<open>
  Both forms are linear over XOR, so they agree everywhere once they agree on
  the sixteen one-bit accumulators.
\<close>

lemma or_is_xor: "push_bit 8 (ucast (d :: 8 word)) OR (ucast (h :: 8 word) :: 16 word)
    = push_bit 8 (ucast d) XOR ucast h"
  by (rule bit_word_eqI) (auto simp: bit_simps dest: bit_imp_le_length)

lemma lo8_xor: "lo8 (x XOR y) = lo8 x XOR lo8 y"
  unfolding lo8_def by (rule bit_word_eqI) (auto simp: bit_simps)

lemma hi8_xor: "hi8 (x XOR y) = hi8 x XOR hi8 y"
  unfolding hi8_def by (rule bit_word_eqI) (auto simp: bit_simps)

lemma ucast_xor_16: "(ucast (a XOR b :: 8 word) :: 16 word) = ucast a XOR ucast b"
  by (rule bit_word_eqI) (auto simp: bit_simps)

lemma crc_update_bytewise: "crc_ccitt_update c b = crc_bytewise (c XOR ucast b)"
  by (simp add: crc_ccitt_update_def crc_bytewise_def Let_def or_is_xor lo8_xor hi8_xor
        lo8_ucast hi8_ucast xor.commute)

lemma crc_bytewise_linear: "crc_bytewise (x XOR y) = crc_bytewise x XOR crc_bytewise y"
  by (simp add: crc_bytewise_def Let_def lo8_xor hi8_xor ucast_xor_16 ac_simps)

lemma crc16_shift_linear: "crc16_shift (x XOR y) = crc16_shift x XOR crc16_shift y"
  by (cases "bit x 0"; cases "bit y 0") (simp_all add: crc16_shift_def bit_xor_iff ac_simps)

lemma crc16_shift_zero: "crc16_shift 0 = 0"
  by (simp add: crc16_shift_def)

lemma crc_bytewise_zero: "crc_bytewise 0 = 0"
  by (simp add: crc_bytewise_def lo8_def hi8_def)

lemma funpow_linear:
  fixes f :: "crc_t \<Rightarrow> crc_t"
  assumes lin: "\<And>x y. f (x XOR y) = f x XOR f y"
  shows "(f ^^ n) (x XOR y) = (f ^^ n) x XOR (f ^^ n) y"
proof (induction n)
  case 0
  show ?case by (simp only: funpow_0)
next
  case (Suc n)
  have "(f ^^ Suc n) (x XOR y) = f ((f ^^ n) (x XOR y))" by simp
  also have "\<dots> = f ((f ^^ n) x XOR (f ^^ n) y)" by (simp only: Suc)
  also have "\<dots> = f ((f ^^ n) x) XOR f ((f ^^ n) y)" by (rule lin)
  also have "\<dots> = (f ^^ Suc n) x XOR (f ^^ Suc n) y" by simp
  finally show ?case .
qed

lemma shift8_linear:
  "(crc16_shift ^^ 8) (x XOR y) = (crc16_shift ^^ 8) x XOR (crc16_shift ^^ 8) y"
  by (rule funpow_linear) (rule crc16_shift_linear)

lemma shift8_zero: "(crc16_shift ^^ 8) 0 = 0"
  by (simp add: eval_nat_numeral crc16_shift_zero)

lemma basis_agree:
  assumes "k < 16"
  shows "crc_bytewise (push_bit k 1) = (crc16_shift ^^ 8) (push_bit k 1)"
proof -
  have b0: "crc_bytewise (push_bit 0 1) = (crc16_shift ^^ 8) (push_bit 0 1)" by code_simp
  have b1: "crc_bytewise (push_bit 1 1) = (crc16_shift ^^ 8) (push_bit 1 1)" by code_simp
  have b2: "crc_bytewise (push_bit 2 1) = (crc16_shift ^^ 8) (push_bit 2 1)" by code_simp
  have b3: "crc_bytewise (push_bit 3 1) = (crc16_shift ^^ 8) (push_bit 3 1)" by code_simp
  have b4: "crc_bytewise (push_bit 4 1) = (crc16_shift ^^ 8) (push_bit 4 1)" by code_simp
  have b5: "crc_bytewise (push_bit 5 1) = (crc16_shift ^^ 8) (push_bit 5 1)" by code_simp
  have b6: "crc_bytewise (push_bit 6 1) = (crc16_shift ^^ 8) (push_bit 6 1)" by code_simp
  have b7: "crc_bytewise (push_bit 7 1) = (crc16_shift ^^ 8) (push_bit 7 1)" by code_simp
  have b8: "crc_bytewise (push_bit 8 1) = (crc16_shift ^^ 8) (push_bit 8 1)" by code_simp
  have b9: "crc_bytewise (push_bit 9 1) = (crc16_shift ^^ 8) (push_bit 9 1)" by code_simp
  have b10: "crc_bytewise (push_bit 10 1) = (crc16_shift ^^ 8) (push_bit 10 1)" by code_simp
  have b11: "crc_bytewise (push_bit 11 1) = (crc16_shift ^^ 8) (push_bit 11 1)" by code_simp
  have b12: "crc_bytewise (push_bit 12 1) = (crc16_shift ^^ 8) (push_bit 12 1)" by code_simp
  have b13: "crc_bytewise (push_bit 13 1) = (crc16_shift ^^ 8) (push_bit 13 1)" by code_simp
  have b14: "crc_bytewise (push_bit 14 1) = (crc16_shift ^^ 8) (push_bit 14 1)" by code_simp
  have b15: "crc_bytewise (push_bit 15 1) = (crc16_shift ^^ 8) (push_bit 15 1)" by code_simp
  have "[0 ..< 16] = [0, 1, 2, 3, 4, 5, 6, 7, 8, 9, 10, 11, 12, 13, 14, 15 :: nat]"
    by code_simp
  moreover from assms have "k \<in> set [0 ..< 16]" by simp
  ultimately have "k \<in> set [0, 1, 2, 3, 4, 5, 6, 7, 8, 9, 10, 11, 12, 13, 14, 15 :: nat]"
    by (simp only:)
  then consider "k = 0" | "k = 1" | "k = 2" | "k = 3" | "k = 4" | "k = 5" | "k = 6"
    | "k = 7" | "k = 8" | "k = 9" | "k = 10" | "k = 11" | "k = 12" | "k = 13" | "k = 14"
    | "k = 15" by auto
  then show ?thesis
    by cases (simp_all only: b0 b1 b2 b3 b4 b5 b6 b7 b8 b9 b10 b11 b12 b13 b14 b15)
qed

lemma take_bit_Suc_xor:
  "take_bit (Suc k) x = take_bit k x XOR (if bit x k then push_bit k 1 else 0)" for x :: crc_t
  by (rule bit_word_eqI) (auto simp: bit_simps less_Suc_eq)

lemma linear_agree:
  "k \<le> 16 \<Longrightarrow> crc_bytewise (take_bit k x) = (crc16_shift ^^ 8) (take_bit k x)"
proof (induction k)
  case 0
  show ?case by (simp add: crc_bytewise_zero shift8_zero)
next
  case (Suc k)
  then have k: "k < 16" and ih: "crc_bytewise (take_bit k x) = (crc16_shift ^^ 8) (take_bit k x)"
    by simp_all
  show ?case
  proof (cases "bit x k")
    case True
    then have "take_bit (Suc k) x = take_bit k x XOR push_bit k 1"
      by (simp only: take_bit_Suc_xor if_True)
    then show ?thesis
      by (simp only: crc_bytewise_linear shift8_linear ih basis_agree[OF k])
  next
    case False
    then have "take_bit (Suc k) x = take_bit k x"
      by (simp only: take_bit_Suc_xor if_False xor.right_neutral)
    then show ?thesis by (simp only: ih)
  qed
qed

lemma crc_ccitt_update_bitwise: "crc_ccitt_update c b = crc16_ccitt_bitwise c b"
proof -
  have "take_bit 16 (c XOR ucast b) = c XOR ucast b" by (rule take_bit_word_eq_self) simp
  with linear_agree[of 16 "c XOR ucast b"] show ?thesis
    by (simp add: crc_update_bytewise crc16_ccitt_bitwise_def)
qed

section \<open>What TXInit leaves in the send buffer\<close>

lemma crc_bytes_Nil: "crc_bytes [] c = c" by (simp add: crc_bytes_def)
lemma crc_bytes_Cons: "crc_bytes (b # bs) c = crc_bytes bs (crc_ccitt_update c b)" by (simp add: crc_bytes_def)
lemma crc_bytes_append: "crc_bytes (xs @ ys) c = crc_bytes ys (crc_bytes xs c)" by (simp add: crc_bytes_def)

lemma TXInit_crc_loop_eq:
  "p + n \<le> length (SendBuff s) \<Longrightarrow>
   TXInit_crc_loop n p s = (p + n, s\<lparr>CRC := crc_bytes (take n (drop p (SendBuff s))) (CRC s)\<rparr>)"
proof (induction n arbitrary: p s)
  case 0
  then show ?case by (simp add: crc_bytes_Nil)
next
  case (Suc n)
  from Suc.prems have lt: "p < length (SendBuff s)" by simp
  have d: "drop p (SendBuff s) = SendBuff s ! p # drop (Suc p) (SendBuff s)"
    using lt by (simp add: Cons_nth_drop_Suc)
  from Suc.prems have "Suc p + n \<le> length (SendBuff (s\<lparr>CRC := crc_ccitt_update (CRC s) (SendBuff s ! p)\<rparr>))" by simp
  from Suc.IH[OF this] show ?case
    by (simp add: d crc_bytes_Cons)
qed

declare TXInit_crc_loop.simps [simp del]


lemma unat_len_t: "unat (L :: len_t) < 256"
  using unsigned_less[of L] by simp

lemma TXInit_start_SendBuff:
  "SendBuff (TXInit_start L s) = (SendBuff s)[4 := L, 5 := tx_ctl L s]"
  by (simp add: TXInit_start_def Let_def hw_defs size_defs tx_ctl_def)

lemma body_of_start:
  assumes "length (SendBuff s) = 264"
  shows "take (unat L + 2) (drop 4 ((SendBuff s)[4 := L, 5 := tx_ctl L s])) = tx_body L s"
proof (rule nth_equalityI)
  show "length (take (unat L + 2) (drop 4 ((SendBuff s)[4 := L, 5 := tx_ctl L s]))) = length (tx_body L s)"
    using assms unat_len_t[of L] by (simp add: tx_body_def)
next
  fix i assume "i < length (take (unat L + 2) (drop 4 ((SendBuff s)[4 := L, 5 := tx_ctl L s])))"
  then have i: "i < unat L + 2" by simp
  show "take (unat L + 2) (drop 4 ((SendBuff s)[4 := L, 5 := tx_ctl L s])) ! i = tx_body L s ! i"
  proof (cases "i = 0")
    case True
    with assms show ?thesis by (simp add: tx_body_def)
  next
    case False
    show ?thesis
    proof (cases "i = 1")
      case True
      with assms show ?thesis by (simp add: tx_body_def)
    next
      case f1: False
      with False obtain j where j: "i = Suc (Suc j)" by (metis One_nat_def not0_implies_Suc)
      with i assms unat_len_t[of L] show ?thesis by (simp add: tx_body_def)
    qed
  qed
qed

lemma TXInit_SendBuff:
  assumes "length (SendBuff s) = 264"
  shows "SendBuff (TXInit L s) =
         (SendBuff s)[4 := L, 5 := tx_ctl L s, unat L + 6 := lo8 (tx_crc L s), unat L + 7 := hi8 (tx_crc L s)]"
    and "CRC (TXInit L s) = tx_crc L s"
proof -
  let ?s1 = "(TXInit_start L s)\<lparr>CRC := CRCInit\<rparr>"
  have sb: "SendBuff ?s1 = (SendBuff s)[4 := L, 5 := tx_ctl L s]"
    by (simp add: TXInit_start_SendBuff)
  have "4 + (unat L + 2) \<le> length (SendBuff ?s1)"
    using assms unat_len_t[of L] by (simp add: sb)
  then have "TXInit_crc_loop (unat L + 2) 4 ?s1 =
      (4 + (unat L + 2), ?s1\<lparr>CRC := crc_bytes (take (unat L + 2) (drop 4 (SendBuff ?s1))) (CRC ?s1)\<rparr>)"
    by (rule TXInit_crc_loop_eq)
  then have "TXInit_crc_loop (unat L + 2) 4 ?s1 = (unat L + 6, ?s1\<lparr>CRC := tx_crc L s\<rparr>)"
    unfolding sb body_of_start[OF assms] tx_crc_def by simp
  then have loop: "TXInit_crc_loop (unat L + COMM_HEADSIZE) SynchSize ?s1 = (unat L + 6, ?s1\<lparr>CRC := tx_crc L s\<rparr>)"
    by (simp add: size_defs)
  show "SendBuff (TXInit L s) =
         (SendBuff s)[4 := L, 5 := tx_ctl L s, unat L + 6 := lo8 (tx_crc L s), unat L + 7 := hi8 (tx_crc L s)]"
    unfolding TXInit_def TXInit_crc_def Let_def loop
    by (simp add: TXInit_start_SendBuff ucast_and_ff hi8_def add.commute)
  show "CRC (TXInit L s) = tx_crc L s"
    unfolding TXInit_def TXInit_crc_def Let_def loop by simp
qed

section \<open>Runs of the receive branch\<close>

lemma rgur_8000: "\<not> RF12_S_RGUR 0x8000"
  by (simp add: RF12_S_RGUR_def)

lemma rgur_A000: "RF12_S_RGUR 0xA000"
  by (simp add: RF12_S_RGUR_def)

lemma ISR_run_append:
  "ISR_run cfg (xs @ ys) s = (case ISR_run cfg xs s of Inl e \<Rightarrow> Inl e | Inr s' \<Rightarrow> ISR_run cfg ys s')"
  by (induction xs arbitrary: s) (auto split: sum.splits)

lemma ISR_RX_store:
  assumes "Mode s \<noteq> MT" "RecvCur s = Some c" "RecvEnd s = Some e" "c \<noteq> e" "c < sizeof_packet_t"
  shows "ISR cfg (irq_ok b) s =
         Inr (s\<lparr>Status := 0x8000, RecvBuff := (RecvBuff s)[c := b],
               CRC := crc_ccitt_update (CRC s) b, RecvCur := Some (c + 1)\<rparr>)"
  using assms by (simp add: ISR_def ISR_RX_def Let_def irq_ok_def rgur_8000)

lemma RX_body_run:
  assumes "Mode s \<noteq> MT" "RecvCur s = Some c" "RecvEnd s = Some e"
     "c + length bs \<le> e" "e < sizeof_packet_t" "length (RecvBuff s) = sizeof_packet_t"
  shows "RX_run cfg bs s =
         Inr (s\<lparr>Status := (if bs = [] then Status s else 0x8000),
               RecvBuff := take c (RecvBuff s) @ bs @ drop (c + length bs) (RecvBuff s),
               CRC := crc_bytes bs (CRC s), RecvCur := Some (c + length bs)\<rparr>)"
  using assms
proof (induction bs arbitrary: s c)
  case Nil
  then show ?case by (simp add: RX_run_def crc_bytes_Nil)
next
  case (Cons b bs)
  let ?s1 = "s\<lparr>Status := 0x8000, RecvBuff := (RecvBuff s)[c := b],
               CRC := crc_ccitt_update (CRC s) b, RecvCur := Some (c + 1)\<rparr>"
  from Cons.prems have step: "ISR cfg (irq_ok b) s = Inr ?s1"
    by (intro ISR_RX_store) auto
  have run: "RX_run cfg bs ?s1 = Inr (?s1\<lparr>Status := (if bs = [] then Status ?s1 else 0x8000),
               RecvBuff := take (c + 1) (RecvBuff ?s1) @ bs @ drop (c + 1 + length bs) (RecvBuff ?s1),
               CRC := crc_bytes bs (CRC ?s1), RecvCur := Some (c + 1 + length bs)\<rparr>)"
    using Cons.prems by (intro Cons.IH) auto
  from Cons.prems have c: "c < length (RecvBuff s)" by simp
  have l: "take (c + 1) ((RecvBuff s)[c := b]) @ bs @ drop (c + 1 + length bs) ((RecvBuff s)[c := b])
         = take c (RecvBuff s) @ (b # bs) @ drop (c + length (b # bs)) (RecvBuff s)"
    using c by (simp add: take_Suc_conv_app_nth)
  show ?case
    using step run l by (simp add: RX_run_def crc_bytes_Cons)
qed


lemma RXInit_fields [simp]:
  "Mode (RXInit s) = Mr" "RecvCur (RXInit s) = Some 0" "RecvEnd (RXInit s) = Some 1"
  "CRC (RXInit s) = CRCInit" "RecvBuff (RXInit s) = RecvBuff s"
  "PacketsRX (RXInit s) = PacketsRX s" "CRCErr (RXInit s) = CRCErr s" "CtrErr (RXInit s) = CtrErr s"
  "IRQ_enabled (RXInit s) = True" "CurMode (RXInit s) = RX"
  "SendBuff (RXInit s) = SendBuff s" "PacketsTX (RXInit s) = PacketsTX s"
  by (simp_all add: RXInit_def Let_def hw_defs size_defs)

lemma ISR_RX_header:
  assumes "Mode s = Mr" "RecvCur s = Some c" "RecvEnd s = Some c" "c < sizeof_packet_t"
  shows "ISR cfg (irq_ok b) s =
     (let s3 = s\<lparr>Status := 0x8000, RecvBuff := (RecvBuff s)[c := b],
                  CRC := crc_ccitt_update (CRC s) b\<rparr>
      in if Control (pk_Type (RecvBuff s3)) \<noteq> (NOT (pk_Length (RecvBuff s3))) AND 0x0F
            \<or> pk_Length (RecvBuff s3) = 0
         then Inr (ResetRX cfg (s3\<lparr>CtrErr := CtrErr s + 1\<rparr>))
         else Inr (s3\<lparr>RecvEnd := Some (c + unat (pk_Length (RecvBuff s3)) + COMM_TAILSIZE),
                      Mode := MR, RecvCur := Some (c + 1)\<rparr>))"
  using assms by (simp add: ISR_def ISR_RX_def Let_def irq_ok_def rgur_8000)

lemma ISR_RX_last:
  assumes "Mode s = MR" "RecvCur s = Some c" "RecvEnd s = Some c" "c < sizeof_packet_t"
  shows "ISR cfg (irq_ok b) s =
     (let s3 = s\<lparr>Status := 0x8000, RecvBuff := (RecvBuff s)[c := b],
                  CRC := crc_ccitt_update (CRC s) b\<rparr>
      in if CRC s3 = 0
         then Inr ((RF_IRQ_OFF (RF_Mode DEF s3))\<lparr>PacketsRX := PacketsRX s + 1, Mode := MX\<rparr>)
         else Inr (ResetRX cfg (s3\<lparr>CRCErr := CRCErr s + 1\<rparr>)))"
  using assms by (simp add: ISR_def ISR_RX_def Let_def irq_ok_def rgur_8000)

lemma take2_upd: "2 \<le> length xs \<Longrightarrow> take 2 (xs[0 := a, Suc 0 := b]) = [a, b]"
  by (cases xs; cases "tl xs") auto

lemma RX_run_Cons: "RX_run cfg (b # bs) s = (case ISR cfg (irq_ok b) s of Inl e \<Rightarrow> Inl e | Inr s' \<Rightarrow> RX_run cfg bs s')"
  unfolding RX_run_def by simp

lemma RX_run_snoc: "RX_run cfg (bs @ [b]) s = (case RX_run cfg bs s of Inl e \<Rightarrow> Inl e | Inr s' \<Rightarrow> ISR cfg (irq_ok b) s')"
  unfolding RX_run_def by (simp add: ISR_run_append split: sum.splits)

text \<open>The header is accepted; then any part of the body that stops before the end cursor.\<close>

lemma RX_header_body:
  assumes len: "length (RecvBuff s) = sizeof_packet_t"
    and L: "L \<noteq> 0" and ctl: "Control ctl = NOT L AND 0x0F"
    and bs: "length bs \<le> unat L + 1"
  shows "RX_run cfg (L # ctl # bs) (RXInit s) =
     Inr ((RXInit s)\<lparr>Status := 0x8000,
            RecvBuff := (L # ctl # bs) @ drop (2 + length bs) (RecvBuff s),
            CRC := crc_bytes (L # ctl # bs) CRCInit,
            RecvCur := Some (2 + length bs), RecvEnd := Some (unat L + 3), Mode := MR\<rparr>)"
proof -
  let ?rb = "RecvBuff s"
  let ?s1 = "(RXInit s)\<lparr>Status := 0x8000, RecvBuff := ?rb[0 := L],
               CRC := crc_ccitt_update CRCInit L, RecvCur := Some (0 + 1)\<rparr>"
  have st1: "ISR cfg (irq_ok L) (RXInit s) = Inr ?s1"
    using ISR_RX_store[of "RXInit s" 0 1 cfg L] by (simp add: size_defs)
  let ?s2 = "?s1\<lparr>Status := 0x8000, RecvBuff := ?rb[0 := L, 1 := ctl],
               CRC := crc_ccitt_update (crc_ccitt_update CRCInit L) ctl,
               RecvEnd := Some (unat L + 3), Mode := MR, RecvCur := Some 2\<rparr>"
  have f: "pk_Type (?rb[0 := L, Suc 0 := ctl]) = ctl" "pk_Length (?rb[0 := L, Suc 0 := ctl]) = L"
    using len by (simp_all add: pk_Type_def pk_Length_def size_defs)
  have st2: "ISR cfg (irq_ok ctl) ?s1 = Inr ?s2"
    using ISR_RX_header[of ?s1 1 cfg ctl] L ctl by (simp add: size_defs f Let_def)
  have ul: "unat L < 256" by (rule unat_len_t)
  have st3: "RX_run cfg bs ?s2 =
         Inr (?s2\<lparr>Status := (if bs = [] then Status ?s2 else 0x8000),
               RecvBuff := take 2 (RecvBuff ?s2) @ bs @ drop (2 + length bs) (RecvBuff ?s2),
               CRC := crc_bytes bs (CRC ?s2), RecvCur := Some (2 + length bs)\<rparr>)"
    using bs len ul by (intro RX_body_run[where e = "unat L + 3"]) (auto simp: size_defs)
  have t: "take 2 (?rb[0 := L, Suc 0 := ctl]) = [L, ctl]"
    using len by (simp add: take2_upd size_defs)
  show ?thesis
    unfolding RX_run_Cons st1 sum.case st2 st3
    by (simp add: t crc_bytes_Cons)
qed

lemma drop_upd0: "n < length rb \<Longrightarrow> (drop n rb)[0 := v] = v # drop (Suc n) rb"
  by (simp add: Cons_nth_drop_Suc[symmetric])

lemma RX_frame:
  assumes len: "length (RecvBuff s) = sizeof_packet_t"
    and L: "L \<noteq> 0" and ctl: "Control ctl = NOT L AND 0x0F"
    and pl: "length payload = unat L"
  shows "RX_run cfg (L # ctl # payload @ [t1, t2]) (RXInit s) =
     Inr (if crc_bytes (L # ctl # payload @ [t1, t2]) CRCInit = 0
          then (RF_IRQ_OFF (RF_Mode DEF (rx_last (L # ctl # payload @ [t1, t2]) s)))
                  \<lparr>PacketsRX := PacketsRX s + 1, Mode := MX\<rparr>
          else ResetRX cfg ((rx_last (L # ctl # payload @ [t1, t2]) s)\<lparr>CRCErr := CRCErr s + 1\<rparr>))"
proof -
  let ?bs = "payload @ [t1]"
  let ?s3 = "(RXInit s)\<lparr>Status := 0x8000,
            RecvBuff := (L # ctl # ?bs) @ drop (2 + length ?bs) (RecvBuff s),
            CRC := crc_bytes (L # ctl # ?bs) CRCInit,
            RecvCur := Some (2 + length ?bs), RecvEnd := Some (unat L + 3), Mode := MR\<rparr>"
  have e: "L # ctl # payload @ [t1, t2] = (L # ctl # ?bs) @ [t2]" by simp
  have hb: "RX_run cfg (L # ctl # ?bs) (RXInit s) = Inr ?s3"
    using len L ctl pl by (intro RX_header_body) auto
  have ul: "unat L < 256" by (rule unat_len_t)
  have last: "ISR cfg (irq_ok t2) ?s3 =
     (let s3 = ?s3\<lparr>Status := 0x8000, RecvBuff := (RecvBuff ?s3)[Suc (Suc (Suc (unat L))) := t2],
                  CRC := crc_ccitt_update (CRC ?s3) t2\<rparr>
      in if CRC s3 = 0
         then Inr ((RF_IRQ_OFF (RF_Mode DEF s3))\<lparr>PacketsRX := PacketsRX ?s3 + 1, Mode := MX\<rparr>)
         else Inr (ResetRX cfg (s3\<lparr>CRCErr := CRCErr ?s3 + 1\<rparr>)))"
    using pl ul by (intro ISR_RX_last) (auto simp: size_defs)
  have e3: "unat L + 3 = Suc (Suc (Suc (unat L)))" by simp
  have lt: "Suc (Suc (Suc (unat L))) < length (RecvBuff s)"
    using ul len by (simp add: size_defs)
  have crc: "crc_ccitt_update (crc_bytes (L # ctl # ?bs) CRCInit) t2 = crc_bytes (L # ctl # payload @ [t1, t2]) CRCInit"
    unfolding e by (simp add: crc_bytes_append crc_bytes_Cons crc_bytes_Nil del: append.simps)
  let ?s4 = "?s3\<lparr>Status := 0x8000, RecvBuff := (RecvBuff ?s3)[Suc (Suc (Suc (unat L))) := t2],
                  CRC := crc_ccitt_update (CRC ?s3) t2\<rparr>"
  have s4: "?s4 = rx_last (L # ctl # payload @ [t1, t2]) s"
    using crc pl lt
    by (intro comm_state.equality) (simp_all add: rx_last_def list_update_append drop_upd0 e3)
  have c4: "CRC (rx_last (L # ctl # payload @ [t1, t2]) s) = crc_bytes (L # ctl # payload @ [t1, t2]) CRCInit"
    by (simp add: rx_last_def)
  have "RX_run cfg ((L # ctl # ?bs) @ [t2]) (RXInit s) =
     Inr (if crc_bytes (L # ctl # payload @ [t1, t2]) CRCInit = 0
          then (RF_IRQ_OFF (RF_Mode DEF (rx_last (L # ctl # payload @ [t1, t2]) s)))
                  \<lparr>PacketsRX := PacketsRX s + 1, Mode := MX\<rparr>
          else ResetRX cfg ((rx_last (L # ctl # payload @ [t1, t2]) s)\<lparr>CRCErr := CRCErr s + 1\<rparr>))"
    unfolding RX_run_snoc hb sum.case last Let_def s4 c4 by simp
  then show ?thesis by simp
qed

lemma frame_bytes:
  assumes "length sb = 264"
  shows "drop 4 (take (unat L + 8) (sb[4 := L, 5 := c, unat L + 6 := lo, unat L + 7 := hi]))
         = L # c # take (unat (L :: len_t)) (drop 6 sb) @ [lo, hi]"
proof (rule nth_equalityI)
  have ul: "unat L < 256" by (rule unat_len_t)
  show "length (drop 4 (take (unat L + 8) (sb[4 := L, 5 := c, unat L + 6 := lo, unat L + 7 := hi])))
      = length (L # c # take (unat L) (drop 6 sb) @ [lo, hi])"
    using assms ul by simp
  fix i assume "i < length (drop 4 (take (unat L + 8) (sb[4 := L, 5 := c, unat L + 6 := lo, unat L + 7 := hi])))"
  with assms ul have i: "i < unat L + 4" by simp
  show "drop 4 (take (unat L + 8) (sb[4 := L, 5 := c, unat L + 6 := lo, unat L + 7 := hi])) ! i
      = (L # c # take (unat L) (drop 6 sb) @ [lo, hi]) ! i"
    using i assms ul
    by (auto simp: nth_Cons' nth_append nth_list_update)
qed

section \<open>The frame on the wire\<close>

lemma wf_TXPut:
  "wf_state s \<Longrightarrow> length payload \<le> MaxMesgSize \<Longrightarrow> wf_state (TXPut payload s)"
  by (auto simp add: wf_state_def TXPut_def size_defs)

lemma TXPut_payload:
  "wf_state s \<Longrightarrow> length payload \<le> MaxMesgSize \<Longrightarrow>
   take (length payload) (drop 6 (SendBuff (TXPut payload s))) = payload"
  by (simp add: wf_state_def TXPut_def size_defs)

lemma TXPut_ctl:
  "wf_state s \<Longrightarrow> SendBuff (TXPut payload s) ! 5 = SendBuff s ! 5"
  by (simp add: wf_state_def TXPut_def size_defs nth_append)

lemma fifo_TXInit:
  assumes "wf_state s"
  shows "fifo_bytes (TXFrame (TXInit L s)) = tx_body L s @ [lo8 (tx_crc L s), hi8 (tx_crc L s)]"
proof -
  from assms have len: "length (SendBuff s) = 264" by (simp add: wf_state_def size_defs)
  have ul: "unat L < 256" by (rule unat_len_t)
  let ?sb = "(SendBuff s)[4 := L, 5 := tx_ctl L s, unat L + 6 := lo8 (tx_crc L s), unat L + 7 := hi8 (tx_crc L s)]"
  have sb: "SendBuff (TXInit L s) = ?sb" by (rule TXInit_SendBuff(1)[OF len])
  have l4: "?sb ! 4 = L" using len by simp
  have n: "SynchSize + COMM_HEADSIZE + unat L + COMM_TAILSIZE = unat L + 8" by (simp add: size_defs)
  have "fifo_bytes (TXFrame (TXInit L s)) = drop 4 (take (unat L + 8) ?sb)"
    unfolding fifo_bytes_def TXFrame_def sb SynchSize_def[symmetric] 
    by (simp only: l4[unfolded SynchSize_def[symmetric]] n)
  also have "\<dots> = tx_body L s @ [lo8 (tx_crc L s), hi8 (tx_crc L s)]"
    unfolding tx_body_def by (simp add: frame_bytes[OF len])
  finally show ?thesis .
qed

lemma tx_crc_residue:
  "crc_bytes (tx_body L s @ [lo8 (tx_crc L s), hi8 (tx_crc L s)]) CRCInit = 0"
  by (simp add: crc_bytes_append tx_crc_def crc_residue_zero)

lemma Control_tx_ctl: "Control (tx_ctl L s) = NOT L AND 0x0F"
  by (simp add: tx_ctl_def Control_set_Control)

section \<open>Round trip\<close>

lemma roundtrip_general:
  assumes tx: "wf_state tx" and rx: "wf_state rx"
    and L1: "1 \<le> unat Length"
    and pl: "length payload = unat Length"
  shows "\<exists>r. RX_run cfg (fifo_bytes (TXFrame (TXInit Length (TXPut payload tx)))) (RXInit rx) = Inr r
           \<and> Mode r = MX
           \<and> (\<exists>buf. RXGetPacket r = ((Some buf, Length), r) \<and> take (unat Length) buf = payload)
           \<and> RXGetConfig r = Config (SendBuff tx ! (SynchSize + 1))"
proof -
  have L2: "unat Length \<le> MaxMesgSize"
    using unat_len_t[of Length] by (simp add: MaxMesgSize_def)
  let ?t = "TXPut payload tx"
  let ?ctl = "tx_ctl Length ?t"
  let ?lo = "lo8 (tx_crc Length ?t)" and ?hi = "hi8 (tx_crc Length ?t)"
  let ?pkt = "Length # ?ctl # payload @ [?lo, ?hi]"
  from tx pl L2 have wft: "wf_state ?t" by (simp add: wf_TXPut)
  from tx pl L2 have p: "take (unat Length) (drop 6 (SendBuff ?t)) = payload"
    using TXPut_payload[of tx payload] by simp
  have body: "tx_body Length ?t = Length # ?ctl # payload" by (simp add: tx_body_def p)
  have fifo: "fifo_bytes (TXFrame (TXInit Length ?t)) = ?pkt"
    using fifo_TXInit[OF wft, of Length] by (simp add: body)
  have crc0: "crc_bytes ?pkt CRCInit = 0"
    using tx_crc_residue[of Length ?t] by (simp add: body)
  from L1 have L0: "Length \<noteq> 0" by auto
  from rx have len: "length (RecvBuff rx) = sizeof_packet_t" by (simp add: wf_state_def)
  let ?r = "(RF_IRQ_OFF (RF_Mode DEF (rx_last ?pkt rx)))\<lparr>PacketsRX := PacketsRX rx + 1, Mode := MX\<rparr>"
  have run: "RX_run cfg ?pkt (RXInit rx) = Inr ?r"
    using RX_frame[OF len L0 Control_tx_ctl pl] crc0 by simp
  have rb: "RecvBuff ?r = ?pkt @ drop (length ?pkt) (RecvBuff rx)"
    by (simp add: rx_last_def hw_defs)
  have m: "Mode ?r = MX" by simp
  have g: "RXGetPacket ?r = ((Some (pk_Mesg (RecvBuff ?r)), Length), ?r)"
    unfolding RXGetPacket_def rb by (simp add: pk_Length_def)
  have t: "take (unat Length) (pk_Mesg (RecvBuff ?r)) = payload"
    unfolding rb pk_Mesg_def using pl by (simp add: size_defs)
  have c: "RXGetConfig ?r = Config (SendBuff tx ! (SynchSize + 1))"
    unfolding RXGetConfig_def rb
    by (simp add: pk_Type_def tx_ctl_def Config_set_Control TXPut_ctl[OF tx] size_defs)
  show ?thesis
    unfolding fifo using run m g t c by blast
qed

lemma wf_State0: "wf_state State0"
  by (simp add: wf_state_def State0_def size_defs SynchData_def)

section \<open>Reading the result\<close>

text \<open>
  C7.  \<open>RXGetPacket\<close> is a total function of the state (it has no
  loop).  It hands back the state it was given, whatever the mode: mode,
  cursors, buffers and counters are untouched and a second call gives the same
  answer.  In mode \<open>MX\<close> it returns the message buffer and the received
  length; in every other mode it returns \<open>NULL\<close> and length 0.  Only
  \<open>RXInit\<close> arms the receiver again (mode \<open>Mr\<close>, interrupt enabled).
\<close>

theorem RXGetPacket_reports:
  "snd (RXGetPacket s) = s
   \<and> (Mode s = MX \<longrightarrow>
        fst (RXGetPacket s) = (Some (RXGetBuff s), pk_Length (RecvBuff s)))
   \<and> (Mode s \<noteq> MX \<longrightarrow> fst (RXGetPacket s) = (None, 0))
   \<and> RXGetPacket (snd (RXGetPacket s)) = RXGetPacket s
   \<and> Mode (RXInit s) = Mr \<and> IRQ_enabled (RXInit s)"
  by (simp add: RXGetPacket_def RXGetBuff_def)

theorem RXGetPacket_reports_witness:
  "fst (RXGetPacket (State0\<lparr>Mode := MX,
          RecvBuff := [2, 0x0D, 0x4F, 0x4B, 0x11, 0x22] @ replicate 254 0\<rparr>))
     = (Some ([0x4F, 0x4B, 0x11, 0x22] @ replicate 254 0), 2)
   \<and> snd (RXGetPacket (State0\<lparr>Mode := MX,
          RecvBuff := [2, 0x0D, 0x4F, 0x4B, 0x11, 0x22] @ replicate 254 0\<rparr>))
     = State0\<lparr>Mode := MX, RecvBuff := [2, 0x0D, 0x4F, 0x4B, 0x11, 0x22] @ replicate 254 0\<rparr>
   \<and> fst (RXGetPacket (State0\<lparr>Mode := Mr,
          RecvBuff := [2, 0x0D, 0x4F, 0x4B, 0x11, 0x22] @ replicate 254 0\<rparr>))
     = (None, 0)"
  using RXGetPacket_reports
          [of "State0\<lparr>Mode := MX, RecvBuff := [2, 0x0D, 0x4F, 0x4B, 0x11, 0x22] @ replicate 254 0\<rparr>"]
        RXGetPacket_reports
          [of "State0\<lparr>Mode := Mr, RecvBuff := [2, 0x0D, 0x4F, 0x4B, 0x11, 0x22] @ replicate 254 0\<rparr>"]
  by (simp add: RXGetBuff_def pk_Mesg_def pk_Length_def COMM_HEADSIZE_def)

section \<open>Runs of the transmit branch\<close>

lemma TXInit_start_fields:
  "Mode (TXInit_start L s) = MT" "SendCur (TXInit_start L s) = Some 1"
  "SendEnd (TXInit_start L s) = Some (unat L + 10)"
  "CurMode (TXInit_start L s) = TX" "IRQ_enabled (TXInit_start L s)"
  "PacketsTX (TXInit_start L s) = PacketsTX s" "CtrErr (TXInit_start L s) = CtrErr s"
  "RecvBuff (TXInit_start L s) = RecvBuff s"
  "SPI_log (TXInit_start L s) =
     SPI_log s @ (if CurMode s \<noteq> TX then [RF12_PM_TX] else [])
       @ [RF12_TXWR_CMD (Raw_at s 0), RF12_STATUS]"
  by (simp_all add: TXInit_start_def Let_def hw_defs size_defs Raw_at_def)

lemma TXInit_crc_fields:
  assumes "length (SendBuff s) = 264"
  shows "TXInit L s = (TXInit_start L s)\<lparr>CRC := tx_crc L s,
       SendBuff := (SendBuff s)[4 := L, 5 := tx_ctl L s, unat L + 6 := lo8 (tx_crc L s),
                                unat L + 7 := hi8 (tx_crc L s)]\<rparr>"
proof -
  let ?s1 = "(TXInit_start L s)\<lparr>CRC := CRCInit\<rparr>"
  have sb: "SendBuff ?s1 = (SendBuff s)[4 := L, 5 := tx_ctl L s]"
    by (simp add: TXInit_start_SendBuff)
  have "4 + (unat L + 2) \<le> length (SendBuff ?s1)"
    using assms unat_len_t[of L] by (simp add: sb)
  then have "TXInit_crc_loop (unat L + 2) 4 ?s1 =
      (4 + (unat L + 2), ?s1\<lparr>CRC := crc_bytes (take (unat L + 2) (drop 4 (SendBuff ?s1))) (CRC ?s1)\<rparr>)"
    by (rule TXInit_crc_loop_eq)
  then have "TXInit_crc_loop (unat L + 2) 4 ?s1 = (unat L + 6, ?s1\<lparr>CRC := tx_crc L s\<rparr>)"
    unfolding sb body_of_start[OF assms] tx_crc_def by simp
  then have loop: "TXInit_crc_loop (unat L + COMM_HEADSIZE) SynchSize ?s1 = (unat L + 6, ?s1\<lparr>CRC := tx_crc L s\<rparr>)"
    by (simp add: size_defs)
  show ?thesis
    unfolding TXInit_def TXInit_crc_def Let_def loop
    by (simp add: TXInit_start_SendBuff ucast_and_ff hi8_def add.commute)
qed

lemma ISR_TX_send:
  assumes "Mode s = MT" "SendCur s = Some c" "SendEnd s = Some e" "c \<noteq> e"
  shows "ISR cfg (irq_ok b) s =
         Inr (s\<lparr>Status := 0x8000, SPI_log := SPI_log s @ [RF12_TXWR_CMD (Raw_at s c)],
               SendCur := Some (c + 1)\<rparr>)"
  using assms by (simp add: ISR_def ISR_TX_def Let_def irq_ok_def rgur_8000 hw_defs Raw_at_def)

lemma ISR_TX_done:
  assumes "Mode s = MT" "SendCur s = Some e" "SendEnd s = Some e"
  shows "ISR cfg (irq_ok b) s =
         Inr (s\<lparr>Status := 0x8000, Mode := Mt, PacketsTX := PacketsTX s + 1, IRQ_enabled := False\<rparr>)"
  using assms by (simp add: ISR_def ISR_TX_def Let_def irq_ok_def rgur_8000 hw_defs)

lemma TX_run:
  assumes "Mode s = MT" "SendCur s = Some c" "SendEnd s = Some e" "c + length bs \<le> e"
  shows "ISR_run cfg (map irq_ok bs) s =
         Inr (s\<lparr>Status := (if bs = [] then Status s else 0x8000),
               SPI_log := SPI_log s @ map (\<lambda>i. RF12_TXWR_CMD (Raw_at s i)) [c ..< c + length bs],
               SendCur := Some (c + length bs)\<rparr>)"
  using assms
proof (induction bs arbitrary: s c)
  case Nil
  then show ?case by simp
next
  case (Cons b bs)
  let ?s1 = "s\<lparr>Status := 0x8000, SPI_log := SPI_log s @ [RF12_TXWR_CMD (Raw_at s c)],
               SendCur := Some (c + 1)\<rparr>"
  from Cons.prems have step: "ISR cfg (irq_ok b) s = Inr ?s1"
    by (intro ISR_TX_send) auto
  have run: "ISR_run cfg (map irq_ok bs) ?s1 =
         Inr (?s1\<lparr>Status := (if bs = [] then Status ?s1 else 0x8000),
               SPI_log := SPI_log ?s1 @ map (\<lambda>i. RF12_TXWR_CMD (Raw_at ?s1 i)) [c + 1 ..< c + 1 + length bs],
               SendCur := Some (c + 1 + length bs)\<rparr>)"
    using Cons.prems by (intro Cons.IH) auto
  have r: "\<And>i. Raw_at ?s1 i = Raw_at s i" by (simp add: Raw_at_def)
  have u: "[c ..< c + length (b # bs)] = c # [c + 1 ..< c + 1 + length bs]"
    by (subst upt_rec) simp
  show ?case
    unfolding list.map ISR_run.simps step sum.case run r u
    by simp
qed

lemma wf_len: "wf_state s \<Longrightarrow> length (SendBuff s) = 264"
  by (simp add: wf_state_def size_defs)

lemma TXInit_fields:
  assumes "wf_state s"
  shows "Mode (TXInit L s) = MT" "SendCur (TXInit L s) = Some 1"
    "SendEnd (TXInit L s) = Some (unat L + 10)"
    "CurMode (TXInit L s) = TX" "IRQ_enabled (TXInit L s)"
    "PacketsTX (TXInit L s) = PacketsTX s"
    "SPI_log (TXInit L s) =
       SPI_log s @ (if CurMode s \<noteq> TX then [RF12_PM_TX] else [])
         @ [RF12_TXWR_CMD (Raw_at s 0), RF12_STATUS]"
  by (simp_all add: TXInit_crc_fields[OF wf_len[OF assms]] TXInit_start_fields)

lemma ISR_run_irq_ok_snoc:
  "ISR_run cfg (map irq_ok (bs @ [b])) s =
     (case ISR_run cfg (map irq_ok bs) s of Inl e \<Rightarrow> Inl e | Inr s' \<Rightarrow> ISR cfg (irq_ok b) s')"
  by (simp add: ISR_run_append split: sum.splits)

lemma TX_run_to_end:
  assumes "Mode s = MT" "SendCur s = Some c" "SendEnd s = Some e" "c + length bs = e"
  shows "ISR_run cfg (map irq_ok (bs @ [b])) s =
         Inr (s\<lparr>Status := 0x8000,
               SPI_log := SPI_log s @ map (\<lambda>i. RF12_TXWR_CMD (Raw_at s i)) [c ..< e],
               SendCur := Some e, Mode := Mt, PacketsTX := PacketsTX s + 1,
               IRQ_enabled := False\<rparr>)"
proof -
  let ?s2 = "s\<lparr>Status := (if bs = [] then Status s else 0x8000),
               SPI_log := SPI_log s @ map (\<lambda>i. RF12_TXWR_CMD (Raw_at s i)) [c ..< c + length bs],
               SendCur := Some (c + length bs)\<rparr>"
  have run: "ISR_run cfg (map irq_ok bs) s = Inr ?s2"
    using assms by (intro TX_run) auto
  have fin: "ISR cfg (irq_ok b) ?s2 =
      Inr (?s2\<lparr>Status := 0x8000, Mode := Mt, PacketsTX := PacketsTX ?s2 + 1, IRQ_enabled := False\<rparr>)"
    using assms by (intro ISR_TX_done) auto
  show ?thesis
    unfolding ISR_run_irq_ok_snoc run sum.case fin using assms by simp
qed

section \<open>Transmit underrun\<close>

text \<open>
  C5.  The link is in \<open>MT\<close> with an end cursor \<open>e\<close> as \<open>TXInit\<close>
  sets it (at least 1), and an interrupt arrives whose first status byte has
  RGUR set.  The handler returns without a fault and leaves \<open>PacketsTX\<close>
  alone.  With \<open>COMM_TXRETRY\<close>: the first byte of the frame buffer is
  written to the transmitter again, the send cursor is back at offset 1, the
  mode is still \<open>MT\<close>; any shorter run of further normal interrupts keeps
  \<open>MT\<close> and the counter, and the run of exactly \<open>e\<close> of them ends in
  \<open>Mt\<close> with the interrupt disabled and the counter one higher than
  before the underrun.  Without \<open>COMM_TXRETRY\<close>: mode \<open>MI\<close>, both
  cursors \<open>NULL\<close>, interrupt disabled, transceiver in its default mode.
\<close>

theorem TX_underrun:
  assumes "Mode s = MT" and "SendEnd s = Some e" and "1 \<le> e"
    and "RF12_S_RGUR (push_bit 8 (ucast (status_hi inp)))"
  shows "\<exists>s1. ISR cfg inp s = Inr s1 \<and> PacketsTX s1 = PacketsTX s \<and>
     (if COMM_TXRETRY cfg then
        Mode s1 = MT \<and> SendCur s1 = Some 1 \<and> SendEnd s1 = Some e
        \<and> SPI_log s1 = SPI_log s @ [RF12_TXWR_CMD (Raw_at s 0)]
        \<and> (\<forall>bs. length bs < e \<longrightarrow>
              (\<exists>s2. ISR_run cfg (map irq_ok bs) s1 = Inr s2
                  \<and> Mode s2 = MT \<and> PacketsTX s2 = PacketsTX s))
        \<and> (\<forall>bs. length bs = e \<longrightarrow>
              (\<exists>s3. ISR_run cfg (map irq_ok bs) s1 = Inr s3
                  \<and> Mode s3 = Mt \<and> PacketsTX s3 = PacketsTX s + 1 \<and> \<not> IRQ_enabled s3))
      else Mode s1 = MI \<and> SendCur s1 = None \<and> SendEnd s1 = None
        \<and> \<not> IRQ_enabled s1 \<and> CurMode s1 = DEF)"
proof (cases "COMM_TXRETRY cfg")
  case False
  with assms show ?thesis
    by (simp add: ISR_def ISR_error_def Let_def hw_defs)
next
  case True
  define s1 where "s1 = ISR_error cfg inp (s\<lparr>Status := push_bit 8 (ucast (status_hi inp))\<rparr>)"
  have isr: "ISR cfg inp s = Inr s1"
    using assms by (simp add: ISR_def Let_def s1_def)
  have f: "Mode s1 = MT" "SendCur s1 = Some 1" "SendEnd s1 = Some e"
    "SPI_log s1 = SPI_log s @ [RF12_TXWR_CMD (Raw_at s 0)]" "PacketsTX s1 = PacketsTX s"
    using assms True by (simp_all add: s1_def ISR_error_def Let_def hw_defs Raw_at_def)
  have a: "\<exists>s2. ISR_run cfg (map irq_ok bs) s1 = Inr s2 \<and> Mode s2 = MT \<and> PacketsTX s2 = PacketsTX s"
    if "length bs < e" for bs
  proof -
    from that have "1 + length bs \<le> e" by simp
    from TX_run[OF f(1) f(2) f(3) this, of cfg] show ?thesis by (simp add: f)
  qed
  have b: "\<exists>s3. ISR_run cfg (map irq_ok bs) s1 = Inr s3 \<and> Mode s3 = Mt
            \<and> PacketsTX s3 = PacketsTX s + 1 \<and> \<not> IRQ_enabled s3"
    if "length bs = e" for bs
  proof -
    from that assms(3) have "bs \<noteq> []" by auto
    then obtain bs' b' where bs: "bs = bs' @ [b']" by (metis rev_exhaust)
    with that have "1 + length bs' = e" by simp
    from TX_run_to_end[OF f(1) f(2) f(3) this, of cfg b'] show ?thesis by (simp add: f bs)
  qed
  from True isr f a b show ?thesis by auto
qed

lemma rgur_in: "RF12_S_RGUR (push_bit 8 (ucast (status_hi irq_rgur)))"
  by (simp add: irq_rgur_def rgur_A000)

lemma wf_one_byte: "wf_state (TXPut [0x41] State0)"
  by (simp add: wf_TXPut wf_State0 MaxMesgSize_def)

lemma TXPut_fields:
  "PacketsTX (TXPut p s) = PacketsTX s" "SPI_log (TXPut p s) = SPI_log s"
  "CurMode (TXPut p s) = CurMode s" "RecvBuff (TXPut p s) = RecvBuff s"
  by (simp_all add: TXPut_def)

lemma State0_fields:
  "PacketsTX State0 = 0" "SPI_log State0 = []" "CurMode State0 = TX"
  "PacketsRX State0 = 0" "CRCErr State0 = 0" "CtrErr State0 = 0"
  by (simp_all add: State0_def)

theorem TX_underrun_witness:
  "Mode (TXInit 1 (TXPut [0x41] State0)) = MT
   \<and> SendEnd (TXInit 1 (TXPut [0x41] State0)) = Some 11
   \<and> RF12_S_RGUR (push_bit 8 (ucast (status_hi irq_rgur)))
   \<and> (\<exists>s1. ISR source_cfg irq_rgur (TXInit 1 (TXPut [0x41] State0)) = Inr s1
         \<and> PacketsTX s1 = 0 \<and> Mode s1 = MT \<and> SendCur s1 = Some 1
         \<and> (\<forall>bs. length bs = 11 \<longrightarrow>
               (\<exists>s3. ISR_run source_cfg (map irq_ok bs) s1 = Inr s3
                   \<and> Mode s3 = Mt \<and> PacketsTX s3 = 1 \<and> \<not> IRQ_enabled s3)))
   \<and> (\<exists>s1. ISR (source_cfg\<lparr>COMM_TXRETRY := False\<rparr>) irq_rgur
               (TXInit 1 (TXPut [0x41] State0)) = Inr s1
         \<and> PacketsTX s1 = 0 \<and> Mode s1 = MI \<and> SendCur s1 = None \<and> SendEnd s1 = None)"
proof -
  have m: "Mode (TXInit 1 (TXPut [0x41] State0)) = MT"
    and e: "SendEnd (TXInit 1 (TXPut [0x41] State0)) = Some 11"
    and p: "PacketsTX (TXInit 1 (TXPut [0x41] State0)) = 0"
    by (simp_all add: TXInit_fields[OF wf_one_byte] TXPut_fields State0_fields)
  have one: "(1::nat) \<le> 11" by simp
  from TX_underrun [OF m e one rgur_in, of source_cfg]
    TX_underrun [OF m e one rgur_in, of "source_cfg\<lparr>COMM_TXRETRY := False\<rparr>"]
  show ?thesis
    by (simp add: m e p rgur_in source_cfg_def) blast
qed

lemma tx_bytes_append: "tx_bytes (xs @ ys) = tx_bytes xs @ tx_bytes ys"
  by (induction xs rule: tx_bytes.induct) auto

lemma tx_bytes_map: "tx_bytes (map (\<lambda>i. RF12_TXWR_CMD (f i)) is) = map f is"
  by (induction "is") auto

lemma map_nth_take: "n \<le> length xs \<Longrightarrow> map (\<lambda>i. xs ! i) [0..<n] = take n xs"
  by (rule nth_equalityI) auto

lemma TXFrame_TXInit:
  assumes "wf_state s"
  shows "TXFrame (TXInit L s) = take (unat L + 8) (SendBuff (TXInit L s))"
    and "TXFrame (TXInit L s) = SynchData @ tx_body L s @ [lo8 (tx_crc L s), hi8 (tx_crc L s)]"
proof -
  have len: "length (SendBuff s) = 264" by (rule wf_len[OF assms])
  have ul: "unat L < 256" by (rule unat_len_t)
  have sb: "SendBuff (TXInit L s) = (SendBuff s)[4 := L, 5 := tx_ctl L s,
              unat L + 6 := lo8 (tx_crc L s), unat L + 7 := hi8 (tx_crc L s)]"
    by (rule TXInit_SendBuff(1)[OF len])
  have l4: "SendBuff (TXInit L s) ! SynchSize = L" using len by (simp add: sb size_defs)
  have n: "SynchSize + COMM_HEADSIZE + unat L + COMM_TAILSIZE = unat L + 8" by (simp add: size_defs)
  show t: "TXFrame (TXInit L s) = take (unat L + 8) (SendBuff (TXInit L s))"
    unfolding TXFrame_def l4 n ..
  have "take 4 (TXFrame (TXInit L s)) = SynchData"
    using assms len by (simp add: t sb wf_state_def size_defs)
  moreover have "drop 4 (TXFrame (TXInit L s)) = tx_body L s @ [lo8 (tx_crc L s), hi8 (tx_crc L s)]"
    using fifo_TXInit[OF assms, of L] by (simp add: fifo_bytes_def size_defs)
  ultimately show "TXFrame (TXInit L s) = SynchData @ tx_body L s @ [lo8 (tx_crc L s), hi8 (tx_crc L s)]"
    by (metis append_take_drop_id)
qed

lemma TX_whole_run:
  assumes wf: "wf_state s" and n: "length bs = unat L + 9"
  shows "ISR_run cfg (map irq_ok bs) (TXInit L s) =
         Inr ((TXInit L s)\<lparr>Status := 0x8000,
               SPI_log := SPI_log s @ (if CurMode s \<noteq> TX then [RF12_PM_TX] else [])
                  @ [RF12_TXWR_CMD (Raw_at (TXInit L s) 0), RF12_STATUS]
                  @ map (\<lambda>i. RF12_TXWR_CMD (Raw_at (TXInit L s) i)) [1 ..< unat L + 10],
               SendCur := Some (unat L + 10)\<rparr>)"
proof -
  have len: "length (SendBuff s) = 264" by (rule wf_len[OF wf])
  have r0: "Raw_at (TXInit L s) 0 = Raw_at s 0"
    using len by (simp add: Raw_at_def TXInit_SendBuff(1)[OF len])
  from n have "1 + length bs \<le> unat L + 10" by simp
  from TX_run[OF TXInit_fields(1)[OF wf] TXInit_fields(2)[OF wf] TXInit_fields(3)[OF wf] this, of cfg]
  show ?thesis using n by (auto simp add: TXInit_fields[OF wf] r0 add.commute)
qed

lemma TX_log_bytes:
  "tx_bytes ((if c then [RF12_PM_TX] else [])
       @ [RF12_TXWR_CMD (f 0), RF12_STATUS] @ map (\<lambda>i. RF12_TXWR_CMD (f i)) [1 ..< n + 10])
   = map f [0 ..< n + 10]"
proof -
  have "[0 ..< n + 10] = 0 # [1 ..< n + 10]" by (subst upt_rec) simp
  then show ?thesis by (simp add: tx_bytes_append tx_bytes_map)
qed

lemma Raw_at_frame:
  assumes "length (SendBuff t) = 264" "n \<le> 264"
  shows "take n (map (Raw_at t) [0 ..< n + k]) = map InBuff (take n (SendBuff t))"
proof -
  have "take n (map (Raw_at t) [0 ..< n + k]) = map (Raw_at t) [0 ..< n]"
    by (simp add: take_map)
  also have "\<dots> = map (\<lambda>i. InBuff (SendBuff t ! i)) [0 ..< n]"
    using assms by (simp add: Raw_at_def size_defs)
  also have "\<dots> = map InBuff (map (\<lambda>i. SendBuff t ! i) [0 ..< n])" by simp
  also have "\<dots> = map InBuff (take n (SendBuff t))"
    using assms by (simp only: map_nth_take)
  finally show ?thesis .
qed

section \<open>What one transmission clocks out\<close>

text \<open>
  C8, as amended.  \<open>TXInit\<close> writes the first synchronisation byte to the
  transmitter itself and leaves the send cursor at offset 1 of the frame
  buffer, on the second synchronisation byte.  The frame in the buffer is the
  four synchronisation bytes, the length, the control byte, the payload and
  the two CRC bytes.  After \<open>Length + 9\<close> further interrupts the send cursor
  is at the end cursor, the bytes written to the transmitter since
  \<open>TXInit\<close> was called start with that whole frame, at least one more byte
  follows it, and the next interrupt declares \<open>Mt\<close> without writing
  anything.
\<close>

theorem TX_clocks_frame:
  assumes wf: "wf_state s" and pl: "length payload = unat L" and n: "length bs = unat L + 9"
  shows "SendCur (TXInit L (TXPut payload s)) = Some 1
    \<and> TXFrame (TXInit L (TXPut payload s))
        = SynchData @ L # (SendBuff (TXInit L (TXPut payload s)) ! (SynchSize + 1)) # payload
            @ [lo8 (CRC (TXInit L (TXPut payload s))), hi8 (CRC (TXInit L (TXPut payload s)))]
    \<and> (\<exists>t'. ISR_run cfg (map irq_ok bs) (TXInit L (TXPut payload s)) = Inr t'
          \<and> Mode t' = MT \<and> SendCur t' = SendEnd t'
          \<and> (\<exists>log. SPI_log t' = SPI_log s @ log
                \<and> take (length (TXFrame (TXInit L (TXPut payload s)))) (tx_bytes log)
                    = map InBuff (TXFrame (TXInit L (TXPut payload s)))
                \<and> length (TXFrame (TXInit L (TXPut payload s))) < length (tx_bytes log))
          \<and> (\<forall>b. \<exists>t''. ISR cfg (irq_ok b) t' = Inr t'' \<and> Mode t'' = Mt
                \<and> SPI_log t'' = SPI_log t'))"
proof -
  let ?p = "TXPut payload s"
  let ?t = "TXInit L ?p"
  have ul: "unat L < 256" by (rule unat_len_t)
  from wf pl ul have wfp: "wf_state ?p" by (simp add: wf_TXPut MaxMesgSize_def)
  have len: "length (SendBuff ?p) = 264" by (rule wf_len[OF wfp])
  have sb: "SendBuff ?t = (SendBuff ?p)[4 := L, 5 := tx_ctl L ?p,
              unat L + 6 := lo8 (tx_crc L ?p), unat L + 7 := hi8 (tx_crc L ?p)]"
    by (rule TXInit_SendBuff(1)[OF len])
  have lent: "length (SendBuff ?t) = 264" using len by (simp add: sb)
  have c5: "SendBuff ?t ! (SynchSize + 1) = tx_ctl L ?p" using len by (simp add: sb size_defs)
  have crc: "CRC ?t = tx_crc L ?p" by (rule TXInit_SendBuff(2)[OF len])
  from wf pl ul have p: "take (unat L) (drop 6 (SendBuff ?p)) = payload"
    using TXPut_payload[of s payload] by (simp add: MaxMesgSize_def)
  have fr: "TXFrame ?t = SynchData @ L # (SendBuff ?t ! (SynchSize + 1)) # payload
            @ [lo8 (CRC ?t), hi8 (CRC ?t)]"
    unfolding c5 crc TXFrame_TXInit(2)[OF wfp] tx_body_def p by simp
  have frl: "length (TXFrame ?t) = unat L + 8"
    using lent ul by (simp add: TXFrame_TXInit(1)[OF wfp])
  let ?log = "(if CurMode ?p \<noteq> TX then [RF12_PM_TX] else [])
                  @ [RF12_TXWR_CMD (Raw_at ?t 0), RF12_STATUS]
                  @ map (\<lambda>i. RF12_TXWR_CMD (Raw_at ?t i)) [1 ..< unat L + 10]"
  let ?t' = "?t\<lparr>Status := 0x8000, SPI_log := SPI_log ?p @ ?log, SendCur := Some (unat L + 10)\<rparr>"
  have run: "ISR_run cfg (map irq_ok bs) ?t = Inr ?t'"
    using TX_whole_run[OF wfp n, of cfg] by simp
  have tb: "tx_bytes ?log = map (Raw_at ?t) [0 ..< unat L + 10]"
    by (rule TX_log_bytes)
  have tk0: "take (unat L + 8) (tx_bytes ?log) = map InBuff (take (unat L + 8) (SendBuff ?t))"
    unfolding tb using Raw_at_frame[OF lent, of "unat L + 8" 2] ul by (simp add: add.commute)
  have frl': "length (take (unat L + 8) (SendBuff ?t)) = unat L + 8"
    using lent ul by simp
  have tk: "take (length (TXFrame ?t)) (tx_bytes ?log) = map InBuff (TXFrame ?t)"
    by (simp only: TXFrame_TXInit(1)[OF wfp] frl' tk0)
  have lt: "length (TXFrame ?t) < length (tx_bytes ?log)"
    unfolding tb frl by simp
  have m: "Mode ?t' = MT" "SendCur ?t' = SendEnd ?t'" "SPI_log ?t' = SPI_log s @ ?log"
    by (simp_all add: TXInit_fields[OF wfp] TXPut_fields)
  have fin: "\<exists>t''. ISR cfg (irq_ok b) ?t' = Inr t'' \<and> Mode t'' = Mt \<and> SPI_log t'' = SPI_log ?t'" for b
    using ISR_TX_done[of ?t' "unat L + 10" cfg b] by (simp add: TXInit_fields[OF wfp])
  have c: "SendCur ?t = Some 1" by (rule TXInit_fields(2)[OF wfp])
  from c fr run m tk lt fin show ?thesis by blast
qed

lemma crc_one_byte: "crc_bytes [1, 0x0E, 0x41] CRCInit = 0xAA72"
  by (simp add: crc_bytes_def crc_ccitt_update_def lo8_def hi8_def Let_def CRCInit_def)

lemma length_SynchData: "length SynchData = 4"
  by (simp add: SynchData_def)

lemma upt_11: "[0 ..< 11] = [0, 1, 2, 3, 4, 5, 6, 7, 8, 9, 10 :: nat]"
  by code_simp

lemma State0_nth:
  "i < 264 \<Longrightarrow> SendBuff State0 ! i = (if i < 4 then SynchData ! i else 0)"
  by (simp add: State0_def nth_append length_SynchData size_defs)

lemma TXPut_one_byte_nth:
  "i < 264 \<Longrightarrow> SendBuff (TXPut [0x41] State0) ! i
     = (if i < 4 then SynchData ! i else if i = 6 then 0x41 else 0)"
  using wf_len[OF wf_State0]
  by (auto simp add: TXPut_def nth_append State0_nth size_defs nth_Cons')

lemma SendBuff_one_byte:
  "SendBuff (TXInit 1 (TXPut [0x41] State0))
     = (SendBuff (TXPut [0x41] State0))[4 := 1, 5 := 0x0E, 7 := 0x72, 8 := 0xAA]"
proof -
  have c: "tx_ctl 1 (TXPut [0x41] State0) = 0x0E"
    by (simp add: tx_ctl_def TXPut_one_byte_nth set_Control_def)
  have "take (length [0x41 :: 8 word]) (drop 6 (SendBuff (TXPut [0x41] State0))) = [0x41]"
    by (rule TXPut_payload[OF wf_State0]) (simp add: MaxMesgSize_def)
  then have b: "tx_body 1 (TXPut [0x41] State0) = [1, 0x0E, 0x41]"
    by (simp add: tx_body_def c)
  have r: "tx_crc 1 (TXPut [0x41] State0) = 0xAA72"
    by (simp add: tx_crc_def b crc_one_byte)
  have l: "lo8 0xAA72 = 0x72" "hi8 0xAA72 = 0xAA" by (simp_all add: lo8_def hi8_def)
  show ?thesis
    by (simp add: TXInit_SendBuff(1)[OF wf_len[OF wf_one_byte]] c r l)
qed

lemma Raw_one_byte:
  "map (Raw_at (TXInit 1 (TXPut [0x41] State0))) [0 ..< 11]
     = map InBuff [0xAA, 0xAA, 0x2D, 0xD4, 1, 0x0E, 0x41, 0x72, 0xAA, 0, 0]"
  using wf_len[OF wf_one_byte]
  by (simp add: Raw_at_def size_defs SendBuff_one_byte TXPut_one_byte_nth SynchData_def upt_11)

text \<open>
  C8 as stated fails for a one-byte payload on the initial state: the send
  cursor is at offset 1, not at offset \<open>SynchSize\<close> where the first byte
  behind the synchronisation pattern lies, and the nine bytes of the frame
  are followed by two further bytes, not one.
\<close>

theorem TX_dummy_bytes_counterexample:
  "SendCur (TXInit 1 (TXPut [0x41] State0)) = Some 1
   \<and> (1 :: nat) \<noteq> SynchSize
   \<and> TXFrame (TXInit 1 (TXPut [0x41] State0)) = [0xAA, 0xAA, 0x2D, 0xD4, 1, 0x0E, 0x41, 0x72, 0xAA]
   \<and> \<not> isl (ISR_run source_cfg (map irq_ok (replicate 10 0)) (TXInit 1 (TXPut [0x41] State0)))
   \<and> SendCur (projr (ISR_run source_cfg (map irq_ok (replicate 10 0))
                        (TXInit 1 (TXPut [0x41] State0))))
       = SendEnd (projr (ISR_run source_cfg (map irq_ok (replicate 10 0))
                        (TXInit 1 (TXPut [0x41] State0))))
   \<and> tx_bytes (SPI_log (projr (ISR_run source_cfg (map irq_ok (replicate 10 0))
                        (TXInit 1 (TXPut [0x41] State0)))))
       = map InBuff ([0xAA, 0xAA, 0x2D, 0xD4, 1, 0x0E, 0x41, 0x72, 0xAA] @ [0, 0])"
proof -
  let ?t = "TXInit 1 (TXPut [0x41] State0)"
  have n: "length (replicate 10 (0 :: 8 word)) = unat (1 :: len_t) + 9" by simp
  have fr: "TXFrame ?t = [0xAA, 0xAA, 0x2D, 0xD4, 1, 0x0E, 0x41, 0x72, 0xAA]"
  proof -
    have "map InBuff (TXFrame ?t) = take 9 (map (Raw_at ?t) [0 ..< 9 + 2])"
      using Raw_at_frame[of ?t 9 2] wf_len[OF wf_one_byte]
      by (simp add: TXFrame_TXInit(1)[OF wf_one_byte] SendBuff_one_byte)
    also have "\<dots> = map InBuff [0xAA, 0xAA, 0x2D, 0xD4, 1, 0x0E, 0x41, 0x72, 0xAA]"
      using Raw_one_byte by simp
    finally show ?thesis by (rule map_injective) (simp add: inj_def)
  qed
  have tb: "tx_bytes ((if CurMode (TXPut [0x41] State0) \<noteq> TX then [RF12_PM_TX] else [])
                  @ [RF12_TXWR_CMD (Raw_at ?t 0), RF12_STATUS]
                  @ map (\<lambda>i. RF12_TXWR_CMD (Raw_at ?t i)) [1 ..< 1 + 10])
            = map (Raw_at ?t) [0 ..< 1 + 10]"
    by (rule TX_log_bytes)
  show ?thesis
    using TX_whole_run[OF wf_one_byte n, of source_cfg] tb Raw_one_byte
    by (simp add: TXInit_fields[OF wf_one_byte] TXPut_fields State0_fields fr SynchSize_def)
qed

theorem TX_clocks_frame_witness:
  "wf_state State0 \<and> length [0x41 :: 8 word] = unat (1 :: len_t)
   \<and> length (replicate 10 (0 :: 8 word)) = unat (1 :: len_t) + 9
   \<and> SendCur (TXInit 1 (TXPut [0x41] State0)) = Some 1
   \<and> TXFrame (TXInit 1 (TXPut [0x41] State0))
        = SynchData @ 1 # (SendBuff (TXInit 1 (TXPut [0x41] State0)) ! (SynchSize + 1)) # [0x41]
            @ [lo8 (CRC (TXInit 1 (TXPut [0x41] State0))), hi8 (CRC (TXInit 1 (TXPut [0x41] State0)))]
   \<and> (\<exists>t'. ISR_run source_cfg (map irq_ok (replicate 10 0)) (TXInit 1 (TXPut [0x41] State0)) = Inr t'
          \<and> Mode t' = MT \<and> SendCur t' = SendEnd t'
          \<and> (\<exists>log. SPI_log t' = SPI_log State0 @ log
                \<and> take (length (TXFrame (TXInit 1 (TXPut [0x41] State0)))) (tx_bytes log)
                    = map InBuff (TXFrame (TXInit 1 (TXPut [0x41] State0)))
                \<and> length (TXFrame (TXInit 1 (TXPut [0x41] State0))) < length (tx_bytes log))
          \<and> (\<forall>b. \<exists>t''. ISR source_cfg (irq_ok b) t' = Inr t'' \<and> Mode t'' = Mt
                \<and> SPI_log t'' = SPI_log t'))"
proof -
  have h1: "length [0x41 :: 8 word] = unat (1 :: len_t)" by simp
  have h2: "length (replicate 10 (0 :: 8 word)) = unat (1 :: len_t) + 9" by simp
  from TX_clocks_frame [OF wf_State0 h1 h2, of source_cfg] wf_State0 h1 h2
  show ?thesis by blast
qed

lemma wf_TXConfig: "wf_state s \<Longrightarrow> wf_state (TXConfig Cfg s)"
  by (simp add: wf_state_def TXConfig_def size_defs)

lemma TXConfig_ctl:
  "wf_state s \<Longrightarrow> SendBuff (TXConfig Cfg s) ! 5 = set_Config Cfg (SendBuff s ! 5)"
  by (simp add: wf_state_def TXConfig_def size_defs)

lemma TXInit_ctl:
  "wf_state s \<Longrightarrow> SendBuff (TXInit L s) ! (SynchSize + 1) = tx_ctl L s"
  using wf_len[of s] by (simp add: TXInit_SendBuff(1) size_defs)

lemma RX_header_stage:
  assumes len: "length (RecvBuff r) = sizeof_packet_t"
  shows "RX_run cfg [len, ctl] (RXInit r) =
     Inr (if Control ctl = NOT len AND 0x0F \<and> len \<noteq> 0
          then (RXInit r)\<lparr>Status := 0x8000, RecvBuff := (RecvBuff r)[0 := len, Suc 0 := ctl],
                 CRC := crc_bytes [len, ctl] CRCInit,
                 RecvEnd := Some (1 + unat len + COMM_TAILSIZE), Mode := MR,
                 RecvCur := Some (1 + 1)\<rparr>
          else ResetRX cfg ((RXInit r)\<lparr>Status := 0x8000,
                 RecvBuff := (RecvBuff r)[0 := len, Suc 0 := ctl],
                 CRC := crc_bytes [len, ctl] CRCInit,
                 RecvCur := Some (Suc 0), CtrErr := CtrErr r + 1\<rparr>))"
proof -
  let ?rb = "RecvBuff r"
  let ?s1 = "(RXInit r)\<lparr>Status := 0x8000, RecvBuff := ?rb[0 := len],
               CRC := crc_ccitt_update CRCInit len, RecvCur := Some (0 + 1)\<rparr>"
  have st1: "ISR cfg (irq_ok len) (RXInit r) = Inr ?s1"
    using ISR_RX_store[of "RXInit r" 0 1 cfg len] by (simp add: size_defs)
  have f: "pk_Type (?rb[0 := len, Suc 0 := ctl]) = ctl" "pk_Length (?rb[0 := len, Suc 0 := ctl]) = len"
    using len by (simp_all add: pk_Type_def pk_Length_def size_defs)
  have st2: "ISR cfg (irq_ok ctl) ?s1 =
     (let s3 = ?s1\<lparr>Status := 0x8000, RecvBuff := (RecvBuff ?s1)[1 := ctl],
                  CRC := crc_ccitt_update (CRC ?s1) ctl\<rparr>
      in if Control (pk_Type (RecvBuff s3)) \<noteq> (NOT (pk_Length (RecvBuff s3))) AND 0x0F
            \<or> pk_Length (RecvBuff s3) = 0
         then Inr (ResetRX cfg (s3\<lparr>CtrErr := CtrErr ?s1 + 1\<rparr>))
         else Inr (s3\<lparr>RecvEnd := Some (1 + unat (pk_Length (RecvBuff s3)) + COMM_TAILSIZE),
                      Mode := MR, RecvCur := Some (1 + 1)\<rparr>))"
    by (intro ISR_RX_header) (simp_all add: size_defs)
  show ?thesis
    unfolding RX_run_Cons st1 sum.case st2
    by (auto simp add: f Let_def RX_run_def crc_bytes_def
          intro!: arg_cong[where f = "ResetRX cfg"] comm_state.equality)
qed

section \<open>Header redundancy\<close>

lemma tx_ctl_TXConfig:
  assumes "wf_state s"
  shows "Control (tx_ctl L (TXConfig Cfg s)) = NOT L AND 0x0F"
    and "Config (tx_ctl L (TXConfig Cfg s)) = Cfg AND 0x0F"
  by (simp_all add: tx_ctl_def Control_set_Control Config_set_Control Config_set_Config
        TXConfig_ctl[OF assms])

lemma ResetRX_Mode: "Mode (ResetRX cfg s) = (if COMM_RXRETRY cfg then Mr else MI)"
  by (simp add: ResetRX_def hw_defs)

lemma ResetRX_CtrErr: "CtrErr (ResetRX cfg s) = CtrErr s"
  by (simp add: ResetRX_def hw_defs)

text \<open>
  C3.  On a well-formed sender, after \<open>TXConfig Cfg\<close> and
  \<open>TXInit Length\<close> the control byte in the frame buffer has the low
  nibble \<open>~Length & 0x0F\<close> and the high nibble \<open>Cfg & 0x0F\<close>.  A
  receiver armed by \<open>RXInit\<close> that is given a length byte and a control
  byte goes to \<open>MR\<close> (body assembly) exactly when
  \<open>ctl & 0x0F = ~len & 0x0F\<close> and \<open>len\<close> is not 0; otherwise it counts
  one control error and is back in \<open>Mr\<close> (with \<open>COMM_RXRETRY\<close>) or in
  \<open>MI\<close>.  With length byte 0 it never goes to \<open>MR\<close>, whatever the
  control byte.
\<close>

theorem header_redundancy:
  assumes "wf_state s" and "wf_state r"
  shows "Control (SendBuff (TXInit Length (TXConfig Cfg s)) ! (SynchSize + 1)) = NOT Length AND 0x0F
    \<and> Config (SendBuff (TXInit Length (TXConfig Cfg s)) ! (SynchSize + 1)) = Cfg AND 0x0F
    \<and> (\<exists>r'. RX_run cfg [len, ctl] (RXInit r) = Inr r'
          \<and> (Mode r' = MR \<longleftrightarrow> ctl AND 0x0F = NOT len AND 0x0F \<and> len \<noteq> 0)
          \<and> (Mode r' \<noteq> MR \<longrightarrow>
                 CtrErr r' = CtrErr r + 1 \<and> Mode r' = (if COMM_RXRETRY cfg then Mr else MI)))
    \<and> (\<exists>r'. RX_run cfg [0, ctl] (RXInit r) = Inr r' \<and> Mode r' \<noteq> MR)"
proof -
  have wfc: "wf_state (TXConfig Cfg s)" by (rule wf_TXConfig[OF assms(1)])
  have a: "Control (SendBuff (TXInit Length (TXConfig Cfg s)) ! (SynchSize + 1)) = NOT Length AND 0x0F"
    "Config (SendBuff (TXInit Length (TXConfig Cfg s)) ! (SynchSize + 1)) = Cfg AND 0x0F"
    unfolding TXInit_ctl[OF wfc] by (simp_all add: tx_ctl_TXConfig[OF assms(1)])
  from assms(2) have len: "length (RecvBuff r) = sizeof_packet_t" by (simp add: wf_state_def)
  have b: "\<exists>r'. RX_run cfg [l, ctl] (RXInit r) = Inr r'
          \<and> (Mode r' = MR \<longleftrightarrow> ctl AND 0x0F = NOT l AND 0x0F \<and> l \<noteq> 0)
          \<and> (Mode r' \<noteq> MR \<longrightarrow>
                 CtrErr r' = CtrErr r + 1 \<and> Mode r' = (if COMM_RXRETRY cfg then Mr else MI))" for l
    unfolding RX_header_stage[OF len]
    by (simp add: ResetRX_Mode ResetRX_CtrErr Control_def)
  from b[of 0] have c: "\<exists>r'. RX_run cfg [0, ctl] (RXInit r) = Inr r' \<and> Mode r' \<noteq> MR"
    by auto
  from a b[of len] c show ?thesis by blast
qed

lemma wf_Hello: "wf_state (TXPut [0x48, 0x65, 0x6C, 0x6C, 0x6F] State0)"
  by (simp add: wf_TXPut wf_State0 MaxMesgSize_def)

theorem header_redundancy_witness:
  "wf_state (TXPut [0x48, 0x65, 0x6C, 0x6C, 0x6F] State0) \<and> wf_state State0
   \<and> Control (SendBuff (TXInit 5 (TXConfig 0x3 (TXPut [0x48, 0x65, 0x6C, 0x6C, 0x6F] State0)))
                 ! (SynchSize + 1)) = 0xA
   \<and> Config (SendBuff (TXInit 5 (TXConfig 0x3 (TXPut [0x48, 0x65, 0x6C, 0x6C, 0x6F] State0)))
                 ! (SynchSize + 1)) = 0x3
   \<and> (\<exists>r'. RX_run source_cfg [5, 0x3A] (RXInit State0) = Inr r' \<and> Mode r' = MR)
   \<and> (\<exists>r'. RX_run source_cfg [5, 0x3B] (RXInit State0) = Inr r' \<and> Mode r' = Mr \<and> CtrErr r' = 1)
   \<and> (\<exists>r'. RX_run source_cfg [0, 0x3F] (RXInit State0) = Inr r' \<and> Mode r' = Mr \<and> CtrErr r' = 1)"
proof -
  have n: "NOT (5 :: 8 word) AND 0x0F = 0xA" "(3 :: 8 word) AND 0x0F = 3"
    "(0x3A :: 8 word) AND 0x0F = 0xA" "(0x3B :: 8 word) AND 0x0F = 0xB"
    "NOT (0 :: 8 word) AND 0x0F = 0xF" "(0x3F :: 8 word) AND 0x0F = 0xF"
    by simp_all
  from header_redundancy [OF wf_Hello wf_State0, of 5 3 source_cfg 5 "0x3A"]
    header_redundancy [OF wf_Hello wf_State0, of 5 3 source_cfg 5 "0x3B"]
    header_redundancy [OF wf_Hello wf_State0, of 5 3 source_cfg 0 "0x3F"]
  show ?thesis
    by (simp add: n wf_Hello wf_State0 State0_fields source_cfg_def) blast
qed

section \<open>The largest length\<close>

lemma RX_run_append:
  "RX_run cfg (xs @ ys) s = (case RX_run cfg xs s of Inl e \<Rightarrow> Inl e | Inr s' \<Rightarrow> RX_run cfg ys s')"
  unfolding RX_run_def by (simp add: ISR_run_append)

lemma RX_two_bytes:
  assumes "Mode s = Mr" "RecvCur s = Some 0" "RecvEnd s = Some 1"
    "length (RecvBuff s) = sizeof_packet_t"
  shows "\<exists>s'. RX_run cfg [a, b] s = Inr s' \<and> Mode s' \<noteq> MX"
proof -
  let ?s1 = "s\<lparr>Status := 0x8000, RecvBuff := (RecvBuff s)[0 := a],
               CRC := crc_ccitt_update (CRC s) a, RecvCur := Some (0 + 1)\<rparr>"
  have st1: "ISR cfg (irq_ok a) s = Inr ?s1"
    using assms by (intro ISR_RX_store) (auto simp: size_defs)
  have st2: "ISR cfg (irq_ok b) ?s1 =
     (let s3 = ?s1\<lparr>Status := 0x8000, RecvBuff := (RecvBuff ?s1)[1 := b],
                  CRC := crc_ccitt_update (CRC ?s1) b\<rparr>
      in if Control (pk_Type (RecvBuff s3)) \<noteq> (NOT (pk_Length (RecvBuff s3))) AND 0x0F
            \<or> pk_Length (RecvBuff s3) = 0
         then Inr (ResetRX cfg (s3\<lparr>CtrErr := CtrErr ?s1 + 1\<rparr>))
         else Inr (s3\<lparr>RecvEnd := Some (1 + unat (pk_Length (RecvBuff s3)) + COMM_TAILSIZE),
                      Mode := MR, RecvCur := Some (1 + 1)\<rparr>))"
    using assms by (intro ISR_RX_header) (simp_all add: size_defs)
  show ?thesis
    unfolding RX_run_Cons st1 sum.case st2
    by (simp add: Let_def RX_run_def ResetRX_Mode)
qed

lemma ResetRX_retry_fields:
  "COMM_RXRETRY cfg \<Longrightarrow> Mode (ResetRX cfg s) = Mr \<and> RecvCur (ResetRX cfg s) = Some 0
     \<and> RecvEnd (ResetRX cfg s) = Some 1 \<and> CRC (ResetRX cfg s) = CRCInit
     \<and> RecvBuff (ResetRX cfg s) = RecvBuff s
     \<and> SPI_log (ResetRX cfg s) = SPI_log s @ [RF12_FIFO_OFF, RF12_FIFO_ON]
     \<and> CurMode (ResetRX cfg s) = CurMode s \<and> IRQ_enabled (ResetRX cfg s) = IRQ_enabled s
     \<and> CRCErr (ResetRX cfg s) = CRCErr s \<and> PacketsRX (ResetRX cfg s) = PacketsRX s"
  by (simp add: ResetRX_def hw_defs size_defs)

lemma fifo_TXInit_0:
  assumes "wf_state s"
  shows "fifo_bytes (TXFrame (TXInit 0 s)) = [0, tx_ctl 0 s] @ [lo8 (tx_crc 0 s), hi8 (tx_crc 0 s)]"
  using fifo_TXInit[OF assms, of 0] by (simp add: tx_body_def)

lemma wf_256_bytes: "wf_state (TXPut (replicate 256 7) State0)"
  by (simp add: wf_TXPut wf_State0 MaxMesgSize_def)

lemma RX_zero_length:
  assumes "wf_state s" "wf_state r"
  shows "\<exists>r1 r2. RX_run source_cfg (take 2 (fifo_bytes (TXFrame (TXInit 0 s)))) (RXInit r) = Inr r1
      \<and> Mode r1 = Mr \<and> CtrErr r1 = CtrErr r + 1
      \<and> RX_run source_cfg (fifo_bytes (TXFrame (TXInit 0 s))) (RXInit r) = Inr r2
      \<and> Mode r2 \<noteq> MX"
proof -
  from assms(2) have len: "length (RecvBuff r) = sizeof_packet_t" by (simp add: wf_state_def)
  let ?r1 = "ResetRX source_cfg ((RXInit r)\<lparr>Status := 0x8000,
                 RecvBuff := (RecvBuff r)[0 := 0, Suc 0 := tx_ctl 0 s],
                 CRC := crc_bytes [0, tx_ctl 0 s] CRCInit,
                 RecvCur := Some (Suc 0), CtrErr := CtrErr r + 1\<rparr>)"
  have h: "RX_run source_cfg [0, tx_ctl 0 s] (RXInit r) = Inr ?r1"
    unfolding RX_header_stage[OF len] by simp
  have rt: "COMM_RXRETRY source_cfg" by (simp add: source_cfg_def)
  have f: "Mode ?r1 = Mr" "RecvCur ?r1 = Some 0" "RecvEnd ?r1 = Some 1"
    "length (RecvBuff ?r1) = sizeof_packet_t" "CtrErr ?r1 = CtrErr r + 1"
    using ResetRX_retry_fields[OF rt] len by (simp_all add: ResetRX_CtrErr)
  from RX_two_bytes[OF f(1) f(2) f(3) f(4), of source_cfg "lo8 (tx_crc 0 s)" "hi8 (tx_crc 0 s)"]
  obtain r2 where r2: "RX_run source_cfg [lo8 (tx_crc 0 s), hi8 (tx_crc 0 s)] ?r1 = Inr r2"
    "Mode r2 \<noteq> MX" by blast
  have full: "RX_run source_cfg (fifo_bytes (TXFrame (TXInit 0 s))) (RXInit r) = Inr r2"
    unfolding fifo_TXInit_0[OF assms(1)] RX_run_append h sum.case by (rule r2(1))
  have pre: "RX_run source_cfg (take 2 (fifo_bytes (TXFrame (TXInit 0 s)))) (RXInit r) = Inr ?r1"
    unfolding fifo_TXInit_0[OF assms(1)] using h by simp
  from pre f(1) f(5) full r2(2) show ?thesis by blast
qed

text \<open>
  C1 as stated fails at the upper end of its range: \<open>MaxMesgSize\<close> is 256
  and a \<open>len_t\<close> cannot hold it.  With 256 payload bytes in the TX buffer
  of a sender whose config nibble is 3, \<open>TXInit(MaxMesgSize)\<close> builds the
  frame of length 0; the receiver is not in \<open>MX\<close> after it and
  \<open>RXGetPacket\<close> returns \<open>NULL\<close> and length 0, not the payload and 256.
\<close>

theorem roundtrip_256_counterexample:
  "(256 :: nat) \<in> {1 .. MaxMesgSize}
   \<and> length (replicate 256 (0x55 :: 8 word)) = 256
   \<and> \<not> isl (RX_run source_cfg
        (fifo_bytes (TXFrame (TXInit (of_nat 256) (TXPut (replicate 256 0x55) (TXConfig 3 State0)))))
        (RXInit State0))
   \<and> Mode (projr (RX_run source_cfg
        (fifo_bytes (TXFrame (TXInit (of_nat 256) (TXPut (replicate 256 0x55) (TXConfig 3 State0)))))
        (RXInit State0))) \<noteq> MX
   \<and> fst (RXGetPacket (projr (RX_run source_cfg
        (fifo_bytes (TXFrame (TXInit (of_nat 256) (TXPut (replicate 256 0x55) (TXConfig 3 State0)))))
        (RXInit State0)))) = (None, 0)"
proof -
  have z: "(of_nat 256 :: len_t) = 0" by simp
  have wf: "wf_state (TXPut (replicate 256 0x55) (TXConfig 3 State0))"
    by (simp add: wf_TXPut wf_TXConfig wf_State0 MaxMesgSize_def)
  from RX_zero_length[OF wf wf_State0]
  show ?thesis
    unfolding z by (auto simp add: MaxMesgSize_def RXGetPacket_def)
qed

text \<open>
  C1, as amended.  For every non-zero length \<open>Length\<close> of type \<open>len_t\<close>
  (so for every length from 1 to 255) and every payload of that many bytes:
  when the sender has put the payload into the TX buffer and called
  \<open>TXInit Length\<close>, and the bytes of the resulting frame behind the
  synchronisation pattern are fed one per interrupt to a receiver armed by
  \<open>RXInit\<close>, the receiver ends in \<open>MX\<close> (frame ready) without a fault,
  \<open>RXGetPacket\<close> returns the same length and a buffer that starts with the
  same payload bytes, and the config nibble is the sender's.  Both devices are
  arbitrary well-formed states, with either retry setting.
\<close>

theorem roundtrip:
  assumes tx: "wf_state tx" and rx: "wf_state rx"
    and L1: "1 \<le> unat Length"
    and pl: "length payload = unat Length"
  shows "unat Length \<le> 255
    \<and> (\<exists>r. RX_run cfg (fifo_bytes (TXFrame (TXInit Length (TXPut payload tx)))) (RXInit rx) = Inr r
           \<and> Mode r = MX
           \<and> (\<exists>buf. RXGetPacket r = ((Some buf, Length), r) \<and> take (unat Length) buf = payload)
           \<and> RXGetConfig r = Config (SendBuff tx ! (SynchSize + 1)))"
proof
  show "unat Length \<le> 255" using unat_len_t[of Length] by simp
  show "\<exists>r. RX_run cfg (fifo_bytes (TXFrame (TXInit Length (TXPut payload tx)))) (RXInit rx) = Inr r
           \<and> Mode r = MX
           \<and> (\<exists>buf. RXGetPacket r = ((Some buf, Length), r) \<and> take (unat Length) buf = payload)
           \<and> RXGetConfig r = Config (SendBuff tx ! (SynchSize + 1))"
    using assms by (rule roundtrip_general)
qed

theorem roundtrip_witness:
  "wf_state State0 \<and> 1 \<le> unat (5 :: len_t)
   \<and> length [0x48, 0x65, 0x6C, 0x6C, 0x6F :: 8 word] = unat (5 :: len_t)
   \<and> (\<exists>r. RX_run source_cfg
              (fifo_bytes (TXFrame (TXInit 5 (TXPut [0x48, 0x65, 0x6C, 0x6C, 0x6F] State0))))
              (RXInit State0) = Inr r
          \<and> Mode r = MX
          \<and> (\<exists>buf. RXGetPacket r = ((Some buf, 5), r)
                 \<and> take (unat (5 :: len_t)) buf = [0x48, 0x65, 0x6C, 0x6C, 0x6F])
          \<and> RXGetConfig r = Config (SendBuff State0 ! (SynchSize + 1)))"
proof -
  have h: "1 \<le> unat (5 :: len_t)"
    "length [0x48, 0x65, 0x6C, 0x6C, 0x6F :: 8 word] = unat (5 :: len_t)"
    by simp_all
  from roundtrip [OF wf_State0 wf_State0 h, of source_cfg] wf_State0 h
  show ?thesis by blast
qed

text \<open>
  C4 as stated fails: \<open>MaxMesgSize\<close> is 256, but the argument of
  \<open>TXInit\<close> is a \<open>len_t\<close>, so \<open>TXInit(MaxMesgSize)\<close> is
  \<open>TXInit(0)\<close>.  With 256 payload bytes in the TX buffer the receiver
  rejects the resulting frame at the header stage (mode \<open>Mr\<close> again, one
  control error), is not in \<open>MX\<close> after the whole frame either, and
  \<open>RXGetPacket\<close> returns nothing.
\<close>

theorem length_256_counterexample:
  "MaxMesgSize = 256 \<and> (of_nat MaxMesgSize :: len_t) = 0
   \<and> Mode (projr (RX_run source_cfg
        (take 2 (fifo_bytes (TXFrame (TXInit (of_nat MaxMesgSize) (TXPut (replicate 256 7) State0)))))
        (RXInit State0))) = Mr
   \<and> CtrErr (projr (RX_run source_cfg
        (take 2 (fifo_bytes (TXFrame (TXInit (of_nat MaxMesgSize) (TXPut (replicate 256 7) State0)))))
        (RXInit State0))) = 1
   \<and> \<not> isl (RX_run source_cfg
        (fifo_bytes (TXFrame (TXInit (of_nat MaxMesgSize) (TXPut (replicate 256 7) State0))))
        (RXInit State0))
   \<and> Mode (projr (RX_run source_cfg
        (fifo_bytes (TXFrame (TXInit (of_nat MaxMesgSize) (TXPut (replicate 256 7) State0))))
        (RXInit State0))) \<noteq> MX
   \<and> fst (RXGetPacket (projr (RX_run source_cfg
        (fifo_bytes (TXFrame (TXInit (of_nat MaxMesgSize) (TXPut (replicate 256 7) State0))))
        (RXInit State0)))) = (None, 0)"
proof -
  have z: "(of_nat MaxMesgSize :: len_t) = 0" by (simp add: MaxMesgSize_def)
  from RX_zero_length[OF wf_256_bytes wf_State0]
  show ?thesis
    unfolding z by (auto simp add: MaxMesgSize_def State0_fields RXGetPacket_def)
qed

text \<open>
  C4, as amended.  No \<open>len_t\<close> value exceeds 255, one less than
  \<open>MaxMesgSize\<close>; a transfer of length 255 is accepted and round-trips:
  the receiver ends in \<open>MX\<close> and \<open>RXGetPacket\<close> returns length 255 and
  the 255 payload bytes.
\<close>

theorem roundtrip_255:
  assumes "wf_state tx" and "wf_state rx" and "length payload = 255"
  shows "(\<forall>l :: len_t. unat l \<le> 255) \<and> unat (255 :: len_t) = 255
    \<and> (\<exists>r. RX_run cfg (fifo_bytes (TXFrame (TXInit 255 (TXPut payload tx)))) (RXInit rx) = Inr r
           \<and> Mode r = MX
           \<and> (\<exists>buf. RXGetPacket r = ((Some buf, 255), r) \<and> take 255 buf = payload))"
proof -
  have a: "\<forall>l :: len_t. unat l \<le> 255"
    using unat_len_t by (auto simp: less_Suc_eq_le[symmetric])
  have u: "unat (255 :: len_t) = 255" by simp
  have h: "1 \<le> unat (255 :: len_t)" "length payload = unat (255 :: len_t)"
    using assms(3) by simp_all
  from roundtrip_general[OF assms(1) assms(2) h, of cfg] a u show ?thesis
    by (simp only: u) blast
qed

theorem roundtrip_255_witness:
  "wf_state State0 \<and> length (replicate 255 (7 :: 8 word)) = 255
   \<and> (\<exists>r. RX_run source_cfg (fifo_bytes (TXFrame (TXInit 255 (TXPut (replicate 255 7) State0))))
              (RXInit State0) = Inr r
           \<and> Mode r = MX
           \<and> (\<exists>buf. RXGetPacket r = ((Some buf, 255), r) \<and> take 255 buf = replicate 255 7))"
proof -
  have h: "length (replicate 255 (7 :: 8 word)) = 255" by simp
  from roundtrip_255 [OF wf_State0 wf_State0 h, of source_cfg] wf_State0 h
  show ?thesis by blast
qed

section \<open>What the CRC covers\<close>

lemma tx_body_TXPut:
  assumes "wf_state s" "length payload = unat L"
  shows "tx_body L (TXPut payload s) = L # tx_ctl L (TXPut payload s) # payload"
proof -
  have "unat L < 256" by (rule unat_len_t)
  with assms have "take (length payload) (drop 6 (SendBuff (TXPut payload s))) = payload"
    by (intro TXPut_payload) (simp_all add: MaxMesgSize_def)
  with assms(2) show ?thesis by (simp add: tx_body_def)
qed

lemma tx_body_TXConfig:
  "tx_body L (TXConfig c s) = L # tx_ctl L (TXConfig c s) # take (unat L) (drop 6 (SendBuff s))"
  by (simp add: tx_body_def TXConfig_def size_defs drop_update_cancel)

text \<open>
  C2, as amended.  The accumulator starts at \<open>0xFFFF\<close> and takes one byte
  per step of \<open>_crc_ccitt_update\<close>.  The two bytes \<open>TXInit\<close> appends to
  the payload are the low byte, then the high byte, of the accumulator run over
  the length byte, the control byte and the payload.  A receiver that has
  accepted the header declares the frame valid (mode \<open>MX\<close>) exactly when
  the accumulator run over every received byte, from the length byte to the
  second trailer byte, is \<open>0x0000\<close>.
\<close>

theorem crc_coverage:
  assumes "wf_state s" and "wf_state r" and "length payload = unat L"
  shows "CRCInit = 0xFFFF
    \<and> TXFrame (TXInit L (TXPut payload s))
        = SynchData @ L # (SendBuff (TXInit L (TXPut payload s)) ! (SynchSize + 1)) # payload
          @ [lo8 (crc_bytes (L # (SendBuff (TXInit L (TXPut payload s)) ! (SynchSize + 1)) # payload)
                    CRCInit),
             hi8 (crc_bytes (L # (SendBuff (TXInit L (TXPut payload s)) ! (SynchSize + 1)) # payload)
                    CRCInit)]
    \<and> (L \<noteq> 0 \<and> Control ctl = NOT L AND 0x0F \<longrightarrow>
          (\<exists>r'. RX_run cfg (L # ctl # payload @ [t1, t2]) (RXInit r) = Inr r'
             \<and> (Mode r' = MX \<longleftrightarrow> crc_bytes (L # ctl # payload @ [t1, t2]) CRCInit = 0)))
    \<and> crc_bytes [] c = c
    \<and> crc_bytes (bs @ [b]) c = crc_ccitt_update (crc_bytes bs c) b"
proof -
  let ?p = "TXPut payload s"
  have ul: "unat L < 256" by (rule unat_len_t)
  from assms ul have wfp: "wf_state ?p" by (simp add: wf_TXPut MaxMesgSize_def)
  have c5: "SendBuff (TXInit L ?p) ! (SynchSize + 1) = tx_ctl L ?p" by (rule TXInit_ctl[OF wfp])
  have fr: "TXFrame (TXInit L ?p) = SynchData @ L # tx_ctl L ?p # payload
       @ [lo8 (crc_bytes (L # tx_ctl L ?p # payload) CRCInit),
          hi8 (crc_bytes (L # tx_ctl L ?p # payload) CRCInit)]"
    unfolding TXFrame_TXInit(2)[OF wfp] tx_crc_def tx_body_TXPut[OF assms(1) assms(3)] by simp
  from assms(2) have len: "length (RecvBuff r) = sizeof_packet_t" by (simp add: wf_state_def)
  have rx: "\<exists>r'. RX_run cfg (L # ctl # payload @ [t1, t2]) (RXInit r) = Inr r'
             \<and> (Mode r' = MX \<longleftrightarrow> crc_bytes (L # ctl # payload @ [t1, t2]) CRCInit = 0)"
    if "L \<noteq> 0" "Control ctl = NOT L AND 0x0F"
    unfolding RX_frame[OF len that assms(3)] by (simp add: ResetRX_Mode)
  have k: "crc_bytes [] c = c" "crc_bytes (bs @ [b]) c = crc_ccitt_update (crc_bytes bs c) b"
    by (simp_all add: crc_bytes_def)
  have i: "CRCInit = 0xFFFF" by (simp add: CRCInit_def)
  from i fr[folded c5] rx k show ?thesis by blast
qed

lemma crc_Hello:
  "crc_bytes [5, 0x3A, 0x48, 0x65, 0x6C, 0x6C, 0x6F] CRCInit = 0xF6A9"
  "crc_bytes [0x3A, 0x48, 0x65, 0x6C, 0x6C, 0x6F] CRCInit = 0x7DF5"
  by (simp_all add: crc_bytes_def crc_ccitt_update_def lo8_def hi8_def Let_def CRCInit_def)

lemma crc_Hello_bad:
  "crc_bytes [5, 0x3A, 0x48, 0x65, 0x6C, 0x6C, 0x6F, 0xF5, 0x7D] CRCInit \<noteq> 0"
  by (simp add: crc_bytes_def crc_ccitt_update_def lo8_def hi8_def Let_def CRCInit_def)

lemma tx_ctl_Hello:
  "tx_ctl 5 (TXConfig 3 (TXPut [0x48, 0x65, 0x6C, 0x6C, 0x6F] State0)) = 0x3A"
proof -
  have "SendBuff (TXPut [0x48, 0x65, 0x6C, 0x6C, 0x6F] State0) ! 5 = 0"
    by (simp add: TXPut_ctl[OF wf_State0] State0_nth)
  then show ?thesis
    by (simp add: tx_ctl_def TXConfig_ctl[OF wf_Hello] set_Control_def set_Config_def)
qed

lemma TXFrame_Hello:
  "TXFrame (TXInit 5 (TXConfig 3 (TXPut [0x48, 0x65, 0x6C, 0x6C, 0x6F] State0)))
     = [0xAA, 0xAA, 0x2D, 0xD4, 5, 0x3A, 0x48, 0x65, 0x6C, 0x6C, 0x6F, 0xA9, 0xF6]"
proof -
  have p0: "take (length [0x48, 0x65, 0x6C, 0x6C, 0x6F :: 8 word])
             (drop 6 (SendBuff (TXPut [0x48, 0x65, 0x6C, 0x6C, 0x6F] State0)))
           = [0x48, 0x65, 0x6C, 0x6C, 0x6F]"
    by (rule TXPut_payload[OF wf_State0]) (simp add: MaxMesgSize_def)
  have l5: "length [0x48, 0x65, 0x6C, 0x6C, 0x6F :: 8 word] = 5" by simp
  have p: "take 5 (drop 6 (SendBuff (TXPut [0x48, 0x65, 0x6C, 0x6C, 0x6F] State0)))
           = [0x48, 0x65, 0x6C, 0x6C, 0x6F]"
    using p0 unfolding l5 .
  have b: "tx_body 5 (TXConfig 3 (TXPut [0x48, 0x65, 0x6C, 0x6C, 0x6F] State0))
      = [5, 0x3A, 0x48, 0x65, 0x6C, 0x6C, 0x6F]"
    unfolding tx_body_TXConfig tx_ctl_Hello using p by simp
  have l: "lo8 0xF6A9 = 0xA9" "hi8 0xF6A9 = 0xF6" by (simp_all add: lo8_def hi8_def)
  show ?thesis
    unfolding TXFrame_TXInit(2)[OF wf_TXConfig[OF wf_Hello]] tx_crc_def b crc_Hello(1) l
    by (simp add: SynchData_def)
qed

text \<open>
  C2 as stated fails for the payload \<open>Hello\<close> with config nibble 3: the
  trailer \<open>TXInit\<close> writes is \<open>A9 F6\<close>, the CRC over length, control
  and payload, whereas the CRC over control and payload alone is \<open>F5 7D\<close>;
  and a receiver given the frame with the trailer \<open>F5 7D\<close> counts a CRC
  error and goes back to \<open>Mr\<close>.
\<close>

theorem crc_covers_length_counterexample:
  "TXFrame (TXInit 5 (TXConfig 3 (TXPut [0x48, 0x65, 0x6C, 0x6C, 0x6F] State0)))
     = [0xAA, 0xAA, 0x2D, 0xD4] @ [5, 0x3A] @ [0x48, 0x65, 0x6C, 0x6C, 0x6F] @ [0xA9, 0xF6]
   \<and> [lo8 (crc_bytes ([0x3A] @ [0x48, 0x65, 0x6C, 0x6C, 0x6F]) CRCInit),
       hi8 (crc_bytes ([0x3A] @ [0x48, 0x65, 0x6C, 0x6C, 0x6F]) CRCInit)] = [0xF5, 0x7D]
   \<and> [lo8 (crc_bytes ([5, 0x3A] @ [0x48, 0x65, 0x6C, 0x6C, 0x6F]) CRCInit),
       hi8 (crc_bytes ([5, 0x3A] @ [0x48, 0x65, 0x6C, 0x6C, 0x6F]) CRCInit)] = [0xA9, 0xF6]
   \<and> \<not> isl (RX_run source_cfg ([5, 0x3A] @ [0x48, 0x65, 0x6C, 0x6C, 0x6F] @ [0xF5, 0x7D])
               (RXInit State0))
   \<and> Mode (projr (RX_run source_cfg ([5, 0x3A] @ [0x48, 0x65, 0x6C, 0x6C, 0x6F] @ [0xF5, 0x7D])
               (RXInit State0))) = Mr
   \<and> CRCErr (projr (RX_run source_cfg ([5, 0x3A] @ [0x48, 0x65, 0x6C, 0x6C, 0x6F] @ [0xF5, 0x7D])
               (RXInit State0))) = 1"
proof -
  have l: "lo8 0xF6A9 = 0xA9" "hi8 0xF6A9 = 0xF6" "lo8 0x7DF5 = 0xF5" "hi8 0x7DF5 = 0x7D"
    by (simp_all add: lo8_def hi8_def)
  have len: "length (RecvBuff State0) = sizeof_packet_t" using wf_State0 by (simp add: wf_state_def)
  have h: "(5 :: len_t) \<noteq> 0" "Control 0x3A = NOT (5 :: len_t) AND 0x0F"
    "length [0x48, 0x65, 0x6C, 0x6C, 0x6F :: 8 word] = unat (5 :: len_t)"
    by (simp_all add: Control_def)
  have rt: "COMM_RXRETRY source_cfg" by (simp add: source_cfg_def)
  show ?thesis
    using RX_frame[OF len h, of source_cfg "0xF5" "0x7D"] crc_Hello_bad
    by (simp add: TXFrame_Hello crc_Hello l ResetRX_retry_fields[OF rt] State0_fields)
qed

theorem crc_coverage_witness:
  "wf_state State0 \<and> length [0x48, 0x65, 0x6C, 0x6C, 0x6F :: 8 word] = unat (5 :: len_t)
   \<and> (5 :: len_t) \<noteq> 0 \<and> Control 0x3A = NOT (5 :: len_t) AND 0x0F
   \<and> crc_bytes (5 # 0x3A # [0x48, 0x65, 0x6C, 0x6C, 0x6F] @ [0xA9, 0xF6]) CRCInit = 0
   \<and> (\<exists>r'. RX_run source_cfg (5 # 0x3A # [0x48, 0x65, 0x6C, 0x6C, 0x6F] @ [0xA9, 0xF6])
               (RXInit State0) = Inr r'
          \<and> Mode r' = MX)"
proof -
  have h: "length [0x48, 0x65, 0x6C, 0x6C, 0x6F :: 8 word] = unat (5 :: len_t)"
    "(5 :: len_t) \<noteq> 0" "Control 0x3A = NOT (5 :: len_t) AND 0x0F"
    by (simp_all add: Control_def)
  have z: "crc_bytes (5 # 0x3A # [0x48, 0x65, 0x6C, 0x6C, 0x6F] @ [0xA9, 0xF6]) CRCInit = 0"
    by (simp add: crc_bytes_def crc_ccitt_update_def lo8_def hi8_def Let_def CRCInit_def)
  from crc_coverage [OF wf_State0 wf_State0 h(1), of "0x3A" source_cfg "0xA9" "0xF6"] h z wf_State0
  show ?thesis by blast
qed

section \<open>A corrupted CRC trailer\<close>

lemma ResetRX_noretry_fields:
  "\<not> COMM_RXRETRY cfg \<Longrightarrow> Mode (ResetRX cfg s) = MI \<and> \<not> IRQ_enabled (ResetRX cfg s)
     \<and> CurMode (ResetRX cfg s) = DEF \<and> RecvCur (ResetRX cfg s) = None
     \<and> RecvEnd (ResetRX cfg s) = None"
  by (simp add: ResetRX_def hw_defs)

lemma ResetRX_counters:
  "CRCErr (ResetRX cfg s) = CRCErr s" "PacketsRX (ResetRX cfg s) = PacketsRX s"
  "CtrErr (ResetRX cfg s) = CtrErr s"
  by (simp_all add: ResetRX_def hw_defs)

lemma rx_last_fields:
  "SPI_log (rx_last pkt s) = SPI_log (RXInit s)" "CurMode (rx_last pkt s) = RX"
  "IRQ_enabled (rx_last pkt s)" "PacketsRX (rx_last pkt s) = PacketsRX s"
  "CtrErr (rx_last pkt s) = CtrErr s"
  by (simp_all add: rx_last_def)

lemma RX_prefix_not_MX:
  assumes len: "length (RecvBuff r) = sizeof_packet_t"
    and L: "L \<noteq> 0" and ctl: "Control ctl = NOT L AND 0x0F"
    and pl: "length payload = unat L" and n: "n < unat L + 4"
  shows "\<exists>r'. RX_run cfg (take n (L # ctl # payload @ [t1, t2])) (RXInit r) = Inr r' \<and> Mode r' \<noteq> MX"
proof (cases "n < 2")
  case True
  then consider "n = 0" | "n = 1" by linarith
  then show ?thesis
  proof cases
    case 1
    then show ?thesis by (simp add: RX_run_def)
  next
    case 2
    have "ISR cfg (irq_ok L) (RXInit r) =
         Inr ((RXInit r)\<lparr>Status := 0x8000, RecvBuff := (RecvBuff r)[0 := L],
               CRC := crc_ccitt_update (CRC (RXInit r)) L, RecvCur := Some (0 + 1)\<rparr>)"
      using ISR_RX_store[of "RXInit r" 0 1 cfg L] by (simp add: size_defs)
    with 2 show ?thesis by (simp add: RX_run_Cons RX_run_def)
  qed
next
  case False
  then obtain k where k: "n = Suc (Suc k)" by (metis Suc_lessI less_2_cases_iff not0_implies_Suc not_less_eq)
  let ?bs = "take k (payload @ [t1, t2])"
  have t: "take n (L # ctl # payload @ [t1, t2]) = L # ctl # ?bs" by (simp add: k)
  from n k pl have lb: "length ?bs \<le> unat L + 1" by simp
  show ?thesis
    unfolding t RX_header_body[OF len L ctl lb] by simp
qed

text \<open>
  C6.  Take the bytes the receiver gets for a frame built by \<open>TXInit\<close>
  with a non-zero length on a well-formed sender, and replace the low byte of
  its CRC trailer by any other value \<open>b\<close> (in particular by the byte with
  one or all bits flipped).  Fed to a receiver armed by \<open>RXInit\<close>, no
  prefix of these bytes, nor the whole of them, leaves the receiver in
  \<open>MX\<close>; after the last byte \<open>CRCErr\<close> is one higher, \<open>PacketsRX\<close>
  and \<open>CtrErr\<close> are unchanged.  With \<open>COMM_RXRETRY\<close> the receiver is
  in \<open>Mr\<close> with the accumulator at \<open>CRCInit\<close> and the cursors on the
  header window (the values \<open>RXInit\<close> sets), the only commands sent are
  the two of \<open>RF::FIFOReset\<close>, the transceiver mode is still \<open>RX\<close>
  and the interrupt is still enabled.  Without \<open>COMM_RXRETRY\<close> the link is
  in \<open>MI\<close>, interrupt disabled, transceiver in its default mode.
\<close>

theorem bad_crc_low_byte:
  assumes tx: "wf_state tx" and rx: "wf_state rx" and L: "L \<noteq> 0"
    and fr: "frame = fifo_bytes (TXFrame (TXInit L tx))"
    and b: "b \<noteq> frame ! (unat L + 2)"
  shows "length frame = unat L + 4
    \<and> frame ! (unat L + 2) = lo8 (CRC (TXInit L tx))
    \<and> (\<forall>n \<le> length frame.
          \<exists>r. RX_run cfg (take n (frame[unat L + 2 := b])) (RXInit rx) = Inr r \<and> Mode r \<noteq> MX)
    \<and> (\<exists>r. RX_run cfg (frame[unat L + 2 := b]) (RXInit rx) = Inr r
          \<and> CRCErr r = CRCErr rx + 1 \<and> PacketsRX r = PacketsRX rx \<and> CtrErr r = CtrErr rx
          \<and> (COMM_RXRETRY cfg \<longrightarrow>
                Mode r = Mr \<and> CRC r = CRCInit
                \<and> RecvCur r = Some 0 \<and> RecvEnd r = Some (COMM_HEADSIZE - 1)
                \<and> SPI_log r = SPI_log (RXInit rx) @ [RF12_FIFO_OFF, RF12_FIFO_ON]
                \<and> CurMode r = RX \<and> IRQ_enabled r
                \<and> Mode r = Mode (RXInit r) \<and> CRC r = CRC (RXInit r)
                \<and> RecvCur r = RecvCur (RXInit r) \<and> RecvEnd r = RecvEnd (RXInit r))
          \<and> (\<not> COMM_RXRETRY cfg \<longrightarrow> Mode r = MI \<and> \<not> IRQ_enabled r \<and> CurMode r = DEF))"
proof -
  let ?ctl = "tx_ctl L tx"
  let ?payload = "take (unat L) (drop 6 (SendBuff tx))"
  let ?crc = "tx_crc L tx"
  have ul: "unat L < 256" by (rule unat_len_t)
  have pl: "length ?payload = unat L" using wf_len[OF tx] ul by simp
  have f: "frame = L # ?ctl # ?payload @ [lo8 ?crc, hi8 ?crc]"
    unfolding fr fifo_TXInit[OF tx] tx_body_def by simp
  have fl: "length frame = unat L + 4" unfolding f using pl by simp
  have lo: "frame ! (unat L + 2) = lo8 ?crc"
    unfolding f using pl by (simp add: nth_append)
  have crc: "CRC (TXInit L tx) = ?crc" by (rule TXInit_SendBuff(2)[OF wf_len[OF tx]])
  have bad: "frame[unat L + 2 := b] = L # ?ctl # ?payload @ [b, hi8 ?crc]"
    unfolding f using pl by (simp add: list_update_append)
  from rx have len: "length (RecvBuff rx) = sizeof_packet_t" by (simp add: wf_state_def)
  from b lo have bne: "b \<noteq> lo8 ?crc" by simp
  have nz: "crc_bytes (L # ?ctl # ?payload @ [b, hi8 ?crc]) CRCInit \<noteq> 0"
  proof -
    have "crc_bytes (L # ?ctl # ?payload @ [b, hi8 ?crc]) CRCInit
          = crc_bytes [b, hi8 ?crc] (crc_bytes (tx_body L tx) CRCInit)"
      unfolding tx_body_def by (simp add: crc_bytes_append crc_bytes_Cons)
    then show ?thesis using crc_residue_nonzero[OF bne] by (simp add: tx_crc_def)
  qed
  let ?pkt = "L # ?ctl # ?payload @ [b, hi8 ?crc]"
  let ?r = "ResetRX cfg ((rx_last ?pkt rx)\<lparr>CRCErr := CRCErr rx + 1\<rparr>)"
  have run: "RX_run cfg (frame[unat L + 2 := b]) (RXInit rx) = Inr ?r"
    unfolding bad RX_frame[OF len L Control_tx_ctl pl] using nz by simp
  have cnt: "CRCErr ?r = CRCErr rx + 1" "PacketsRX ?r = PacketsRX rx" "CtrErr ?r = CtrErr rx"
    by (simp_all add: ResetRX_counters rx_last_fields)
  have retry: "Mode ?r = Mr \<and> CRC ?r = CRCInit
                \<and> RecvCur ?r = Some 0 \<and> RecvEnd ?r = Some (COMM_HEADSIZE - 1)
                \<and> SPI_log ?r = SPI_log (RXInit rx) @ [RF12_FIFO_OFF, RF12_FIFO_ON]
                \<and> CurMode ?r = RX \<and> IRQ_enabled ?r
                \<and> Mode ?r = Mode (RXInit ?r) \<and> CRC ?r = CRC (RXInit ?r)
                \<and> RecvCur ?r = RecvCur (RXInit ?r) \<and> RecvEnd ?r = RecvEnd (RXInit ?r)"
    if "COMM_RXRETRY cfg"
    using ResetRX_retry_fields[OF that, of "(rx_last ?pkt rx)\<lparr>CRCErr := CRCErr rx + 1\<rparr>"]
    by (simp add: rx_last_fields size_defs)
  have noretry: "Mode ?r = MI \<and> \<not> IRQ_enabled ?r \<and> CurMode ?r = DEF" if "\<not> COMM_RXRETRY cfg"
    using ResetRX_noretry_fields[OF that, of "(rx_last ?pkt rx)\<lparr>CRCErr := CRCErr rx + 1\<rparr>"]
    by simp
  have pre: "\<exists>r. RX_run cfg (take n (frame[unat L + 2 := b])) (RXInit rx) = Inr r \<and> Mode r \<noteq> MX"
    if "n \<le> length frame" for n
  proof (cases "n < unat L + 4")
    case True
    show ?thesis unfolding bad by (rule RX_prefix_not_MX[OF len L Control_tx_ctl pl True])
  next
    case False
    with that fl have "take n (frame[unat L + 2 := b]) = frame[unat L + 2 := b]" by simp
    moreover have "Mode ?r \<noteq> MX" by (simp add: ResetRX_Mode)
    ultimately show ?thesis using run by simp
  qed
  from fl lo[folded crc] pre run cnt retry noretry show ?thesis by blast
qed

theorem bad_crc_low_byte_witness:
  "wf_state (TXConfig 3 (TXPut [0x48, 0x65, 0x6C, 0x6C, 0x6F] State0)) \<and> wf_state State0
   \<and> (5 :: len_t) \<noteq> 0
   \<and> [5, 0x3A, 0x48, 0x65, 0x6C, 0x6C, 0x6F, 0xA9, 0xF6]
        = fifo_bytes (TXFrame (TXInit 5 (TXConfig 3 (TXPut [0x48, 0x65, 0x6C, 0x6C, 0x6F] State0))))
   \<and> (0x56 :: 8 word) \<noteq> [5, 0x3A, 0x48, 0x65, 0x6C, 0x6C, 0x6F, 0xA9, 0xF6] ! (unat (5 :: len_t) + 2)
   \<and> (\<exists>r. RX_run source_cfg [5, 0x3A, 0x48, 0x65, 0x6C, 0x6C, 0x6F, 0x56, 0xF6] (RXInit State0) = Inr r
          \<and> CRCErr r = 1 \<and> PacketsRX r = 0 \<and> Mode r = Mr \<and> CRC r = CRCInit
          \<and> RecvCur r = Some 0 \<and> RecvEnd r = Some 1
          \<and> SPI_log r = SPI_log (RXInit State0) @ [RF12_FIFO_OFF, RF12_FIFO_ON]
          \<and> CurMode r = RX \<and> IRQ_enabled r)"
proof -
  have h1: "wf_state (TXConfig 3 (TXPut [0x48, 0x65, 0x6C, 0x6C, 0x6F] State0))"
    by (rule wf_TXConfig[OF wf_Hello])
  have h2: "(5 :: len_t) \<noteq> 0" by simp
  have h3: "[5, 0x3A, 0x48, 0x65, 0x6C, 0x6C, 0x6F, 0xA9, 0xF6]
        = fifo_bytes (TXFrame (TXInit 5 (TXConfig 3 (TXPut [0x48, 0x65, 0x6C, 0x6C, 0x6F] State0))))"
    by (simp add: TXFrame_Hello fifo_bytes_def SynchSize_def)
  have h4: "(0x56 :: 8 word) \<noteq> [5, 0x3A, 0x48, 0x65, 0x6C, 0x6C, 0x6F, 0xA9, 0xF6] ! (unat (5 :: len_t) + 2)"
    by simp
  have rt: "COMM_RXRETRY source_cfg" by (simp add: source_cfg_def)
  have u: "[5, 0x3A, 0x48, 0x65, 0x6C, 0x6C, 0x6F, 0xA9, 0xF6][unat (5 :: len_t) + 2 := 0x56]
        = [5, 0x3A, 0x48, 0x65, 0x6C, 0x6C, 0x6F, 0x56, 0xF6 :: 8 word]"
    by simp
  from bad_crc_low_byte [OF h1 wf_State0 h2 h3 h4, of source_cfg,
         THEN conjunct2, THEN conjunct2, THEN conjunct2]
  obtain r where r: "RX_run source_cfg [5, 0x3A, 0x48, 0x65, 0x6C, 0x6C, 0x6F, 0x56, 0xF6]
                       (RXInit State0) = Inr r"
    "CRCErr r = CRCErr State0 + 1" "PacketsRX r = PacketsRX State0"
    "COMM_RXRETRY source_cfg \<longrightarrow>
                Mode r = Mr \<and> CRC r = CRCInit
                \<and> RecvCur r = Some 0 \<and> RecvEnd r = Some (COMM_HEADSIZE - 1)
                \<and> SPI_log r = SPI_log (RXInit State0) @ [RF12_FIFO_OFF, RF12_FIFO_ON]
                \<and> CurMode r = RX \<and> IRQ_enabled r
                \<and> Mode r = Mode (RXInit r) \<and> CRC r = CRC (RXInit r)
                \<and> RecvCur r = RecvCur (RXInit r) \<and> RecvEnd r = RecvEnd (RXInit r)"
    unfolding u by blast
  from r(4) rt have r4: "Mode r = Mr" "CRC r = CRCInit" "RecvCur r = Some 0" "RecvEnd r = Some 1"
    "SPI_log r = SPI_log (RXInit State0) @ [RF12_FIFO_OFF, RF12_FIFO_ON]"
    "CurMode r = RX" "IRQ_enabled r"
    by (simp_all add: COMM_HEADSIZE_def)
  from r(2) r(3) have c: "CRCErr r = 1" "PacketsRX r = 0" by (simp_all add: State0_fields)
  from h1 wf_State0 h2 h3 h4 r(1) c r4 show ?thesis by blast
qed

section \<open>Stores through the receive cursor\<close>

lemma cursors_ok_State0: "cursors_ok State0"
  by (simp add: cursors_ok_def wf_State0) (simp add: State0_def)

lemma cursors_ok_Idle: "cursors_ok s \<Longrightarrow> cursors_ok (Idle s)"
  by (cases "CurMode s") (simp_all add: cursors_ok_def Idle_def hw_defs wf_state_def)

lemma fold_VSendCommand: "fold VSendCommand cs s = s\<lparr>SPI_log := SPI_log s @ cs\<rparr>"
  by (induction cs arbitrary: s) (simp_all add: VSendCommand_def)

lemma RF_Init_log: "RF_Init s = s\<lparr>SPI_log := SPI_log s @ RF_Init_Config @ [RF12_STATUS]\<rparr>"
  by (simp add: RF_Init_def fold_VSendCommand VSendCommand_def)

lemma cursors_ok_Init: "cursors_ok s \<Longrightarrow> cursors_ok (Init s)"
  by (simp add: cursors_ok_def Init_def Idle_def RF_Init_log hw_defs wf_state_def)

lemma cursors_ok_RXInit: "cursors_ok s \<Longrightarrow> cursors_ok (RXInit s)"
  by (simp add: cursors_ok_def RXInit_def Let_def hw_defs wf_state_def size_defs)

lemma TXPut_cursors:
  "Mode (TXPut p s) = Mode s" "IRQ_enabled (TXPut p s) = IRQ_enabled s"
  "RecvCur (TXPut p s) = RecvCur s" "RecvEnd (TXPut p s) = RecvEnd s"
  "SendCur (TXPut p s) = SendCur s" "CurMode (TXPut p s) = CurMode s"
  by (simp_all add: TXPut_def)

lemma TXConfig_cursors:
  "Mode (TXConfig c s) = Mode s" "IRQ_enabled (TXConfig c s) = IRQ_enabled s"
  "RecvCur (TXConfig c s) = RecvCur s" "RecvEnd (TXConfig c s) = RecvEnd s"
  "SendCur (TXConfig c s) = SendCur s" "CurMode (TXConfig c s) = CurMode s"
  by (simp_all add: TXConfig_def)

lemma cursors_ok_TXPut:
  "cursors_ok s \<Longrightarrow> length payload \<le> MaxMesgSize \<Longrightarrow> cursors_ok (TXPut payload s)"
  by (simp add: cursors_ok_def wf_TXPut TXPut_cursors)

lemma cursors_ok_TXConfig: "cursors_ok s \<Longrightarrow> cursors_ok (TXConfig Cfg s)"
  by (simp add: cursors_ok_def wf_TXConfig TXConfig_cursors)

lemma cursors_ok_TXPreInit: "cursors_ok s \<Longrightarrow> cursors_ok (TXPreInit s)"
  by (simp add: cursors_ok_def TXPreInit_def hw_defs wf_state_def)

lemma cursors_ok_TXInit:
  assumes "cursors_ok s"
  shows "cursors_ok (TXInit L s)"
proof -
  from assms have wf: "wf_state s" by (simp add: cursors_ok_def)
  have len: "length (SendBuff s) = 264" by (rule wf_len[OF wf])
  have "wf_state (TXInit L s)"
    using wf by (simp add: TXInit_crc_fields[OF len] wf_state_def TXInit_start_fields size_defs)
  then show ?thesis
    by (simp add: cursors_ok_def TXInit_fields[OF wf])
qed



lemma unat_bound_258: "Suc (unat (x :: 8 word) + COMM_TAILSIZE) \<le> 258"
  using unat_len_t[of x] by (simp add: size_defs)

lemma cursors_ok_ISR_error:
  "cursors_ok s \<Longrightarrow> IRQ_enabled s \<Longrightarrow> cursors_ok (ISR_error cfg inp (s\<lparr>Status := st\<rparr>))"
  by (auto simp add: cursors_ok_def ISR_error_def ResetRX_def hw_defs wf_state_def Let_def size_defs)

lemma cursors_ok_ISR_TX:
  "cursors_ok s \<Longrightarrow> Mode s = MT \<Longrightarrow> ISR_TX inp (s\<lparr>Status := st\<rparr>) = Inr s' \<Longrightarrow> cursors_ok s'"
  by (auto simp add: cursors_ok_def ISR_TX_def hw_defs wf_state_def Let_def size_defs
        split: if_splits option.splits)

lemma cursors_ok_ResetRX:
  "wf_state s \<Longrightarrow> IRQ_enabled s \<Longrightarrow> Mode s = Mr \<or> Mode s = MR \<Longrightarrow> cursors_ok (ResetRX cfg s)"
  by (auto simp add: cursors_ok_def ResetRX_def hw_defs wf_state_def size_defs)

lemma cursors_ok_ISR_RX:
  assumes ok: "cursors_ok s" and irq: "IRQ_enabled s" and m: "Mode s \<noteq> MT"
    and isr: "ISR_RX cfg inp (s\<lparr>Status := st\<rparr>) = Inr s'"
  shows "cursors_ok s'"
proof -
  from ok irq m have mm: "Mode s = Mr \<or> Mode s = MR" by (auto simp: cursors_ok_def)
  from ok have wf: "wf_state s" by (simp add: cursors_ok_def)
  from ok mm obtain c e where ce: "RecvCur s = Some c" "RecvEnd s = Some e" "c \<le> e" "e \<le> 258"
    by (auto simp: cursors_ok_def)
  define s3 where "s3 = s\<lparr>Status := st OR ucast (status_lo inp),
       RecvBuff := (RecvBuff s)[c := fifo inp], CRC := crc_ccitt_update (CRC s) (fifo inp)\<rparr>"
  have wf3: "wf_state s3" "IRQ_enabled s3" "Mode s3 = Mode s" "RecvCur s3 = Some c" "RecvEnd s3 = Some e"
    using wf irq ce by (simp_all add: s3_def wf_state_def)
  show ?thesis
  proof (cases "c = e")
    case False
    with isr ce have "s' = s3\<lparr>RecvCur := Some (c + 1)\<rparr>"
      by (simp add: ISR_RX_def Let_def s3_def size_defs)
    with ok wf3 ce False mm show ?thesis
      by (auto simp add: cursors_ok_def wf_state_def s3_def)
  next
    case True
    show ?thesis
    proof (cases "Mode s = Mr")
      case Mr: True
      with ok ce True have e1: "e = 1" by (simp add: cursors_ok_def)
      from isr ce True Mr e1
      consider "s' = ResetRX cfg (s3\<lparr>CtrErr := CtrErr s3 + 1\<rparr>)"
        | "s' = s3\<lparr>RecvEnd := Some (1 + unat (pk_Length (RecvBuff s3)) + COMM_TAILSIZE),
                    Mode := MR, RecvCur := Some (1 + 1)\<rparr>"
        by (auto simp add: ISR_RX_def Let_def s3_def size_defs split: if_splits)
      then show ?thesis
      proof cases
        case 1
        then show ?thesis using wf3 Mr
          by (simp add: cursors_ok_ResetRX wf_state_def)
      next
        case 2
        then show ?thesis using wf3 unat_bound_258[of "pk_Length (RecvBuff s3)"]
          by (simp add: cursors_ok_def wf_state_def COMM_TAILSIZE_def)
      qed
    next
      case False
      with mm have MR: "Mode s = MR" by simp
      from isr ce True MR
      consider "s' = (RF_IRQ_OFF (RF_Mode DEF s3))\<lparr>PacketsRX := PacketsRX s3 + 1, Mode := MX\<rparr>"
        | "s' = ResetRX cfg (s3\<lparr>CRCErr := CRCErr s3 + 1\<rparr>)"
        by (auto simp add: ISR_RX_def Let_def s3_def size_defs split: if_splits)
      then show ?thesis
      proof cases
        case 1
        then show ?thesis using wf3
          by (simp add: cursors_ok_def wf_state_def hw_defs)
      next
        case 2
        then show ?thesis using wf3 MR
          by (simp add: cursors_ok_ResetRX wf_state_def)
      qed
    qed
  qed
qed

lemma cursors_ok_ISR:
  assumes "cursors_ok s" and "IRQ_enabled s" and "ISR cfg inp s = Inr s'"
  shows "cursors_ok s'"
proof (cases "RF12_S_RGUR (push_bit 8 (ucast (status_hi inp)))")
  case True
  with assms(3) have "s' = ISR_error cfg inp (s\<lparr>Status := push_bit 8 (ucast (status_hi inp))\<rparr>)"
    by (simp add: ISR_def Let_def)
  then show ?thesis using cursors_ok_ISR_error[OF assms(1) assms(2)] by simp
next
  case False
  show ?thesis
  proof (cases "Mode s = MT")
    case True
    with False assms(3) have "ISR_TX inp (s\<lparr>Status := push_bit 8 (ucast (status_hi inp))\<rparr>) = Inr s'"
      by (simp add: ISR_def Let_def)
    then show ?thesis by (rule cursors_ok_ISR_TX[OF assms(1) True])
  next
    case F: False
    with False assms(3) have "ISR_RX cfg inp (s\<lparr>Status := push_bit 8 (ucast (status_hi inp))\<rparr>) = Inr s'"
      by (simp add: ISR_def Let_def)
    then show ?thesis by (rule cursors_ok_ISR_RX[OF assms(1) assms(2) F])
  qed
qed

lemma reachable_cursors_ok: "reachable cfg s \<Longrightarrow> cursors_ok s"
proof (induction rule: reachable.induct)
  case start
  show ?case by (rule cursors_ok_State0)
next
  case (irq s inp s')
  then show ?case by (auto intro: cursors_ok_ISR)
qed (simp_all add: cursors_ok_Init cursors_ok_Idle cursors_ok_RXInit cursors_ok_TXPut
       cursors_ok_TXConfig cursors_ok_TXInit cursors_ok_TXPreInit)




section \<open>End of a transmission\<close>

lemma reachable_TX_run:
  assumes "reachable cfg s" "IRQ_enabled s" "Mode s = MT" "SendCur s = Some c"
    "SendEnd s = Some e" "c + length bs \<le> e"
  shows "\<exists>s'. ISR_run cfg (map irq_ok bs) s = Inr s' \<and> reachable cfg s'"
  using assms
proof (induction bs arbitrary: s c)
  case Nil
  then show ?case by simp
next
  case (Cons b bs)
  let ?s1 = "s\<lparr>Status := 0x8000, SPI_log := SPI_log s @ [RF12_TXWR_CMD (Raw_at s c)],
               SendCur := Some (c + 1)\<rparr>"
  from Cons.prems have step: "ISR cfg (irq_ok b) s = Inr ?s1"
    by (intro ISR_TX_send) auto
  have r1: "reachable cfg ?s1"
    by (rule reachable.irq[OF Cons.prems(1) Cons.prems(2) step])
  have "\<exists>s'. ISR_run cfg (map irq_ok bs) ?s1 = Inr s' \<and> reachable cfg s'"
    using Cons.prems by (intro Cons.IH[OF r1, of "c + 1"]) auto
  then show ?case
    unfolding list.map ISR_run.simps step sum.case .
qed

text \<open>
  C9.  An interrupt without RGUR that finds the link in \<open>MT\<close> with the
  send cursor at the end cursor sets the mode to \<open>Mt\<close> (transmit done),
  adds one to \<open>PacketsTX\<close>, disables the interrupt source and sends no
  command to the transceiver, so that \<open>RF::CurMode\<close> is what it was; in a
  reachable state that is \<open>TX\<close>: the transmitter stays on.
\<close>

theorem TX_completion:
  assumes "Mode s = MT" and "SendCur s = SendEnd s"
    and "\<not> RF12_S_RGUR (push_bit 8 (ucast (status_hi inp)))"
  shows "\<exists>s'. ISR cfg inp s = Inr s'
          \<and> Mode s' = Mt
          \<and> PacketsTX s' = PacketsTX s + 1
          \<and> \<not> IRQ_enabled s'
          \<and> CurMode s' = CurMode s
          \<and> SPI_log s' = SPI_log s
          \<and> (reachable cfg s \<longrightarrow> CurMode s' = TX)"
proof -
  have "CurMode s = TX" if "reachable cfg s"
    using reachable_cursors_ok[OF that] assms(1) by (simp add: cursors_ok_def)
  with assms show ?thesis
    by (simp add: ISR_def ISR_TX_def Let_def hw_defs)
qed

theorem TX_completion_witness:
  "reachable source_cfg (projr (ISR_run source_cfg (map irq_ok (replicate 10 0))
                                 (TXInit 1 (TXPut [0x41] (Init State0)))))
   \<and> Mode (projr (ISR_run source_cfg (map irq_ok (replicate 10 0))
                                 (TXInit 1 (TXPut [0x41] (Init State0))))) = MT
   \<and> SendCur (projr (ISR_run source_cfg (map irq_ok (replicate 10 0))
                                 (TXInit 1 (TXPut [0x41] (Init State0)))))
       = SendEnd (projr (ISR_run source_cfg (map irq_ok (replicate 10 0))
                                 (TXInit 1 (TXPut [0x41] (Init State0)))))
   \<and> \<not> RF12_S_RGUR (push_bit 8 (ucast (status_hi (irq_ok 0))))
   \<and> (\<exists>s'. ISR source_cfg (irq_ok 0)
               (projr (ISR_run source_cfg (map irq_ok (replicate 10 0))
                                 (TXInit 1 (TXPut [0x41] (Init State0))))) = Inr s'
          \<and> Mode s' = Mt \<and> PacketsTX s' = 1 \<and> \<not> IRQ_enabled s' \<and> CurMode s' = TX)"
proof -
  let ?p = "TXPut [0x41] (Init State0)"
  let ?t = "TXInit 1 ?p"
  have rp: "reachable source_cfg ?p"
    by (intro reachable.txput reachable.init reachable.start) (simp add: MaxMesgSize_def)
  have wfp: "wf_state ?p" using reachable_cursors_ok[OF rp] by (simp add: cursors_ok_def)
  have rt: "reachable source_cfg ?t" by (rule reachable.txinit[OF rp])
  have n: "length (replicate 10 (0 :: 8 word)) = unat (1 :: len_t) + 9" by simp
  have le: "1 + length (replicate 10 (0 :: 8 word)) \<le> unat (1 :: len_t) + 10" by simp
  let ?t' = "?t\<lparr>Status := 0x8000,
               SPI_log := SPI_log ?p @ (if CurMode ?p \<noteq> TX then [RF12_PM_TX] else [])
                  @ [RF12_TXWR_CMD (Raw_at ?t 0), RF12_STATUS]
                  @ map (\<lambda>i. RF12_TXWR_CMD (Raw_at ?t i)) [1 ..< unat (1 :: len_t) + 10],
               SendCur := Some (unat (1 :: len_t) + 10)\<rparr>"
  have run: "ISR_run source_cfg (map irq_ok (replicate 10 0)) ?t = Inr ?t'"
    by (rule TX_whole_run[OF wfp n])
  from reachable_TX_run[OF rt TXInit_fields(5)[OF wfp] TXInit_fields(1)[OF wfp]
         TXInit_fields(2)[OF wfp] TXInit_fields(3)[OF wfp] le]
  have r': "reachable source_cfg ?t'" unfolding run by simp
  have f: "Mode ?t' = MT" "SendCur ?t' = SendEnd ?t'" "PacketsTX ?t' = 0"
    by (simp_all add: TXInit_fields[OF wfp] TXPut_fields)
       (simp add: Init_def Idle_def RF_Init_log hw_defs State0_fields)
  have g: "\<not> RF12_S_RGUR (push_bit 8 (ucast (status_hi (irq_ok 0))))"
    by (simp add: irq_ok_def rgur_8000)
  from TX_completion [OF f(1) f(2) g, of source_cfg] r' f(3)
  have ex: "\<exists>s'. ISR source_cfg (irq_ok 0) ?t' = Inr s'
          \<and> Mode s' = Mt \<and> PacketsTX s' = 1 \<and> \<not> IRQ_enabled s' \<and> CurMode s' = TX"
    by auto
  show ?thesis unfolding run sum.sel using r' f(1) f(2) g ex by blast
qed

end
